theory Spec2Isabelle
  imports Complex_Main
begin

section \<open>Request payloads and the booking schema\<close>

text \<open>
  The development follows \<^verbatim>\<open>src/server.js\<close>, the most recent of the four source files
  (it alone has the booking summary and the booking verification endpoint). Where the
  older \<^verbatim>\<open>src/server.ts\<close> differs, its variant is modelled next to it under a name
  ending in \<^verbatim>\<open>_ts\<close>.

  \<^verbatim>\<open>req.body\<close> is what \<^verbatim>\<open>express.json()\<close> parsed: a JSON value. An object keeps
  the last value of a repeated key. Numbers are written as rationals: every check of the
  schema on a number is a comparison with 1, which a double and the rational it denotes
  decide alike (a literal beyond the range of a double, read as infinity, is left out).
  A string is its list of characters; \<^verbatim>\<open>min\<close> and \<^verbatim>\<open>length\<close> count them.
\<close>

datatype json =
    JNull
  | JBool bool
  | JNum rat
  | JStr string
  | JArr "json list"
  | JObj "(string \<times> json) list"

definition field :: "(string \<times> json) list \<Rightarrow> string \<Rightarrow> json option" where
  "field kvs k = map_of (rev kvs) k"

text \<open>Zod's issues: a code, the path of the value that failed, and a message.\<close>

datatype issue_code = invalid_type | too_small | too_big | invalid_string

datatype path_elem = Key string | Index nat

record issue =
  code :: issue_code
  path :: "path_elem list"
  message :: string

fun getParsedType :: "json option \<Rightarrow> string" where
  "getParsedType None = ''undefined''"
| "getParsedType (Some JNull) = ''null''"
| "getParsedType (Some (JBool b)) = ''boolean''"
| "getParsedType (Some (JNum n)) = ''number''"
| "getParsedType (Some (JStr s)) = ''string''"
| "getParsedType (Some (JArr xs)) = ''array''"
| "getParsedType (Some (JObj kvs)) = ''object''"

text \<open>
  A value of the wrong type gives one issue and none of the checks run; a missing value
  reads "Required" (Zod's default error map).
\<close>

definition wrong_type :: "string \<Rightarrow> json option \<Rightarrow> path_elem list \<Rightarrow> issue" where
  "wrong_type expected v p =
     \<lparr>code = invalid_type, path = p,
      message = (if v = None then ''Required''
                 else ''Expected '' @ expected @ '', received '' @ getParsedType v)\<rparr>"

text \<open>\<^verbatim>\<open>z.number().min(n, {message})\<close>\<close>

definition z_number_min :: "rat \<Rightarrow> string \<Rightarrow> path_elem list \<Rightarrow> json option \<Rightarrow> issue list + rat" where
  "z_number_min n msg p v =
     (case v of
        Some (JNum x) \<Rightarrow>
          (if x < n then Inl [\<lparr>code = too_small, path = p, message = msg\<rparr>] else Inr x)
      | _ \<Rightarrow> Inl [wrong_type ''number'' v p])"

text \<open>\<^verbatim>\<open>z.string().min(n, {message})\<close>\<close>

definition z_string_min :: "nat \<Rightarrow> string \<Rightarrow> path_elem list \<Rightarrow> json option \<Rightarrow> issue list + string" where
  "z_string_min n msg p v =
     (case v of
        Some (JStr s) \<Rightarrow>
          (if length s < n then Inl [\<lparr>code = too_small, path = p, message = msg\<rparr>] else Inr s)
      | _ \<Rightarrow> Inl [wrong_type ''string'' v p])"

text \<open>
  \<^verbatim>\<open>z.string().email({message})\<close>. The regular expression is Zod's, not this
  repository's: it is the parameter \<open>is_email\<close>.
\<close>

definition z_string_email :: "(string \<Rightarrow> bool) \<Rightarrow> string \<Rightarrow> path_elem list \<Rightarrow> json option \<Rightarrow> issue list + string" where
  "z_string_email is_email msg p v =
     (case v of
        Some (JStr s) \<Rightarrow>
          (if is_email s then Inr s else Inl [\<lparr>code = invalid_string, path = p, message = msg\<rparr>])
      | _ \<Rightarrow> Inl [wrong_type ''string'' v p])"

text \<open>\<^verbatim>\<open>z.string().length(n, {message})\<close>: too long and too short are two codes.\<close>

definition z_string_length :: "nat \<Rightarrow> string \<Rightarrow> path_elem list \<Rightarrow> json option \<Rightarrow> issue list + string" where
  "z_string_length n msg p v =
     (case v of
        Some (JStr s) \<Rightarrow>
          (if n < length s then Inl [\<lparr>code = too_big, path = p, message = msg\<rparr>]
           else if length s < n then Inl [\<lparr>code = too_small, path = p, message = msg\<rparr>]
           else Inr s)
      | _ \<Rightarrow> Inl [wrong_type ''string'' v p])"

text \<open>
  A stand-in for that regular expression, used only where the model is run on a concrete
  request: an address is a text with an at sign.
\<close>

definition example_email :: "string \<Rightarrow> bool" where
  "example_email s = (CHR ''@'' \<in> set s)"

definition issues_of :: "issue list + 'a \<Rightarrow> issue list" where
  "issues_of r = (case r of Inl is \<Rightarrow> is | Inr x \<Rightarrow> [])"

text \<open>
  The elements of an array, each parsed at its own index; the issues of all of them are
  kept, in order.
\<close>

fun z_elements :: "(path_elem list \<Rightarrow> json option \<Rightarrow> issue list + 'a) \<Rightarrow> path_elem list \<Rightarrow> nat \<Rightarrow> json list
    \<Rightarrow> issue list \<times> 'a list" where
  "z_elements elem p i [] = ([], [])"
| "z_elements elem p i (x # xs) =
     (let r = elem (p @ [Index i]) (Some x); rest = z_elements elem p (Suc i) xs
      in (issues_of r @ fst rest,
          (case r of Inl is \<Rightarrow> snd rest | Inr y \<Rightarrow> y # snd rest)))"

text \<open>\<^verbatim>\<open>z.array(elem)\<close>, the schema of \<^verbatim>\<open>seats\<close> in \<^verbatim>\<open>src/server.ts\<close>.\<close>

definition z_array :: "(path_elem list \<Rightarrow> json option \<Rightarrow> issue list + 'a) \<Rightarrow> path_elem list \<Rightarrow> json option
    \<Rightarrow> issue list + 'a list" where
  "z_array elem p v =
     (case v of
        Some (JArr xs) \<Rightarrow>
          (case z_elements elem p 0 xs of
             ([], ys) \<Rightarrow> Inr ys
           | (is, ys) \<Rightarrow> Inl is)
      | _ \<Rightarrow> Inl [wrong_type ''array'' v p])"

text \<open>
  \<^verbatim>\<open>z.array(elem).min(n, {message})\<close>: the length is checked first, and the elements
  are parsed all the same.
\<close>

definition z_array_min :: "(path_elem list \<Rightarrow> json option \<Rightarrow> issue list + 'a) \<Rightarrow> nat \<Rightarrow> string
    \<Rightarrow> path_elem list \<Rightarrow> json option \<Rightarrow> issue list + 'a list" where
  "z_array_min elem n msg p v =
     (case v of
        Some (JArr xs) \<Rightarrow>
          (case ((if length xs < n then [\<lparr>code = too_small, path = p, message = msg\<rparr>] else [])
                 @ fst (z_elements elem p 0 xs)) of
             [] \<Rightarrow> Inr (snd (z_elements elem p 0 xs))
           | is \<Rightarrow> Inl is)
      | _ \<Rightarrow> Inl [wrong_type ''array'' v p])"

record booking =
  session_id :: rat
  name :: string
  email :: string
  phone_number :: string
  seats :: "string list"

text \<open>
  \<^verbatim>\<open>BookingSchema\<close> of \<^verbatim>\<open>src/server.js\<close>. An object schema parses every key of its
  shape, in the order of the shape, and reports the issues of all of them; keys that are
  not in the shape are dropped.
\<close>

definition BookingSchema :: "(string \<Rightarrow> bool) \<Rightarrow> json \<Rightarrow> issue list + booking" where
  "BookingSchema is_email body =
     (case body of
        JObj kvs \<Rightarrow>
          (let r1 = z_number_min 1 ''Session ID is required'' [Key ''session_id''] (field kvs ''session_id'');
               r2 = z_string_min 1 ''Name is required'' [Key ''name''] (field kvs ''name'');
               r3 = z_string_email is_email ''Invalid email address'' [Key ''email''] (field kvs ''email'');
               r4 = z_string_length 8 ''Invalid phone number'' [Key ''phone_number''] (field kvs ''phone_number'');
               r5 = z_array_min (z_string_min 1 ''Seat is required'') 1
                      ''At least one seat must be selected'' [Key ''seats''] (field kvs ''seats'')
           in (case (r1, r2, r3, r4, r5) of
                 (Inr sid, Inr n, Inr e, Inr ph, Inr ss) \<Rightarrow>
                   Inr \<lparr>session_id = sid, name = n, email = e, phone_number = ph, seats = ss\<rparr>
               | _ \<Rightarrow> Inl (issues_of r1 @ issues_of r2 @ issues_of r3 @ issues_of r4 @ issues_of r5)))
      | _ \<Rightarrow> Inl [wrong_type ''object'' (Some body) []])"

text \<open>\<^verbatim>\<open>BookingSchema\<close> of \<^verbatim>\<open>src/server.ts\<close>: any non-empty phone number, any number of seats.\<close>

definition BookingSchema_ts :: "(string \<Rightarrow> bool) \<Rightarrow> json \<Rightarrow> issue list + booking" where
  "BookingSchema_ts is_email body =
     (case body of
        JObj kvs \<Rightarrow>
          (let r1 = z_number_min 1 ''Session ID is required'' [Key ''session_id''] (field kvs ''session_id'');
               r2 = z_string_min 1 ''Name is required'' [Key ''name''] (field kvs ''name'');
               r3 = z_string_email is_email ''Invalid email address'' [Key ''email''] (field kvs ''email'');
               r4 = z_string_min 1 ''Phone number is required'' [Key ''phone_number''] (field kvs ''phone_number'');
               r5 = z_array (z_string_min 1 ''Seat is required'') [Key ''seats''] (field kvs ''seats'')
           in (case (r1, r2, r3, r4, r5) of
                 (Inr sid, Inr n, Inr e, Inr ph, Inr ss) \<Rightarrow>
                   Inr \<lparr>session_id = sid, name = n, email = e, phone_number = ph, seats = ss\<rparr>
               | _ \<Rightarrow> Inl (issues_of r1 @ issues_of r2 @ issues_of r3 @ issues_of r4 @ issues_of r5)))
      | _ \<Rightarrow> Inl [wrong_type ''object'' (Some body) []])"

section \<open>The relational store\<close>

text \<open>
  The four tables of \<^verbatim>\<open>initializeDb\<close>, each a list of rows in rowid order, and the
  \<^verbatim>\<open>sqlite_sequence\<close> counters of the two tables the booking handler inserts into
  (\<^verbatim>\<open>AUTOINCREMENT\<close>: a rowid is never reused). Primary keys are the rowids; the
  columns that hold a number sent by a client hold any number.
\<close>

record movie_row =
  mv_id :: nat
  mv_title :: string
  mv_description :: string
  mv_duration :: rat
  mv_genre :: "string option"
  mv_actors :: "string option"
  mv_release_date :: string
  mv_transfer_link :: "string option"
  mv_image :: string
  mv_wide_image :: "string option"

record session_row =
  ss_id :: nat
  ss_movie_id :: rat
  ss_audio :: string
  ss_subtitle :: "string option"
  ss_hall_no :: rat
  ss_date :: string
  ss_time :: string

record booking_row =
  bk_id :: nat
  bk_session_id :: rat
  bk_name :: string
  bk_email :: string
  bk_phone_number :: string

record seat_row =
  bs_id :: nat
  bs_booking_id :: nat
  bs_session_id :: rat
  bs_seat :: string

record database =
  movies :: "movie_row list"
  sessions :: "session_row list"
  bookings :: "booking_row list"
  booking_seats :: "seat_row list"
  bookings_seq :: nat
  booking_seats_seq :: nat

text \<open>The database after \<^verbatim>\<open>initializeDb\<close> on a new file: four empty tables.\<close>

definition initializeDb :: database where
  "initializeDb = \<lparr>movies = [], sessions = [], bookings = [], booking_seats = [],
                    bookings_seq = 0, booking_seats_seq = 0\<rparr>"

text \<open>
  A connection. \<^verbatim>\<open>openDb\<close> passes a file name and a driver to \<^verbatim>\<open>open\<close> and nothing
  else; no handler executes a \<^verbatim>\<open>PRAGMA\<close>. SQLite enforces the \<^verbatim>\<open>FOREIGN KEY\<close>
  clauses of a schema only on a connection that has switched \<^verbatim>\<open>foreign_keys\<close> on, so
  on every connection of this program they are declared and not enforced.
\<close>

record connection =
  foreign_keys :: bool

definition openDb :: connection where
  "openDb = \<lparr>foreign_keys = False\<rparr>"

text \<open>
  What a connection sees: the committed database and, while a transaction is open on the
  connection, the working copy that its statements change. Without an open transaction
  a statement commits by itself.
\<close>

record store =
  committed :: database
  tx :: "database option"

definition current :: "store \<Rightarrow> database" where
  "current st = (case tx st of Some t \<Rightarrow> t | None \<Rightarrow> committed st)"

definition put :: "store \<Rightarrow> database \<Rightarrow> store" where
  "put st d = (case tx st of Some t \<Rightarrow> st\<lparr>tx := Some d\<rparr> | None \<Rightarrow> st\<lparr>committed := d\<rparr>)"

text \<open>What a handler can throw: a \<^verbatim>\<open>ZodError\<close> with its issues, or another error.\<close>

record js_error =
  err_name :: string
  err_code :: "string option"
  err_message :: string

datatype thrown = ZodError "issue list" | Thrown js_error

definition sqlite_constraint :: "string \<Rightarrow> js_error" where
  "sqlite_constraint what =
     \<lparr>err_name = ''Error'', err_code = Some ''SQLITE_CONSTRAINT'',
      err_message = ''SQLITE_CONSTRAINT: '' @ what\<rparr>"

definition sqlite_error :: "string \<Rightarrow> js_error" where
  "sqlite_error what =
     \<lparr>err_name = ''Error'', err_code = Some ''SQLITE_ERROR'',
      err_message = ''SQLITE_ERROR: '' @ what\<rparr>"

definition unique_seat_failed :: js_error where
  "unique_seat_failed =
     sqlite_constraint ''UNIQUE constraint failed: booking_seats.session_id, booking_seats.seat''"

definition foreign_key_failed :: js_error where
  "foreign_key_failed = sqlite_constraint ''FOREIGN KEY constraint failed''"

subsection \<open>The statements of the booking handler\<close>

definition next_rowid :: "nat list \<Rightarrow> nat \<Rightarrow> nat" where
  "next_rowid ids seq = Suc (fold max ids seq)"

definition session_exists :: "database \<Rightarrow> rat \<Rightarrow> bool" where
  "session_exists d sid = (\<exists>s \<in> set (sessions d). of_nat (ss_id s) = sid)"

definition booking_exists :: "database \<Rightarrow> nat \<Rightarrow> bool" where
  "booking_exists d bid = (\<exists>b \<in> set (bookings d). bk_id b = bid)"

definition seat_taken :: "database \<Rightarrow> rat \<Rightarrow> string \<Rightarrow> bool" where
  "seat_taken d sid seat = (\<exists>r \<in> set (booking_seats d). bs_session_id r = sid \<and> bs_seat r = seat)"

definition begin_transaction :: "store \<Rightarrow> js_error + store" where
  "begin_transaction st =
     (case tx st of
        Some t \<Rightarrow> Inl (sqlite_error ''cannot start a transaction within a transaction'')
      | None \<Rightarrow> Inr (st\<lparr>tx := Some (committed st)\<rparr>))"

definition commit :: "store \<Rightarrow> js_error + store" where
  "commit st =
     (case tx st of
        Some t \<Rightarrow> Inr \<lparr>committed = t, tx = None\<rparr>
      | None \<Rightarrow> Inl (sqlite_error ''cannot commit - no transaction is active''))"

definition rollback :: "store \<Rightarrow> js_error + store" where
  "rollback st =
     (case tx st of
        Some t \<Rightarrow> Inr (st\<lparr>tx := None\<rparr>)
      | None \<Rightarrow> Inl (sqlite_error ''cannot rollback - no transaction is active''))"

text \<open>
  \<^verbatim>\<open>INSERT INTO bookings (session_id, name, email, phone_number) VALUES (?, ?, ?, ?)\<close>,
  returning \<^verbatim>\<open>lastID\<close>.
\<close>

definition insert_booking :: "connection \<Rightarrow> booking \<Rightarrow> store \<Rightarrow> js_error + (nat \<times> store)" where
  "insert_booking c b st =
     (let d = current st in
      if foreign_keys c \<and> \<not> session_exists d (session_id b) then Inl foreign_key_failed
      else
        (let i = next_rowid (map bk_id (bookings d)) (bookings_seq d) in
         Inr (i, put st (d\<lparr>bookings := bookings d @
                              [\<lparr>bk_id = i, bk_session_id = session_id b, bk_name = name b,
                                bk_email = email b, bk_phone_number = phone_number b\<rparr>],
                            bookings_seq := i\<rparr>))))"

text \<open>
  \<^verbatim>\<open>INSERT INTO booking_seats (booking_id, session_id, seat) VALUES (?, ?, ?)\<close>, under
  \<^verbatim>\<open>UNIQUE(session_id, seat)\<close>.
\<close>

definition insert_seat :: "connection \<Rightarrow> nat \<Rightarrow> rat \<Rightarrow> string \<Rightarrow> store \<Rightarrow> js_error + store" where
  "insert_seat c bid sid seat st =
     (let d = current st in
      if seat_taken d sid seat then Inl unique_seat_failed
      else if foreign_keys c \<and> \<not> (booking_exists d bid \<and> session_exists d sid)
        then Inl foreign_key_failed
      else
        (let i = next_rowid (map bs_id (booking_seats d)) (booking_seats_seq d) in
         Inr (put st (d\<lparr>booking_seats := booking_seats d @
                            [\<lparr>bs_id = i, bs_booking_id = bid, bs_session_id = sid, bs_seat = seat\<rparr>],
                          booking_seats_seq := i\<rparr>))))"

text \<open>\<^verbatim>\<open>db.get\<close> gives the first row, or \<^verbatim>\<open>undefined\<close>; \<^verbatim>\<open>db.all\<close> gives all rows.\<close>

definition select_booking :: "database \<Rightarrow> nat \<Rightarrow> booking_row option" where
  "select_booking d bid = List.find (\<lambda>b. bk_id b = bid) (bookings d)"

definition select_booked_seats :: "database \<Rightarrow> nat \<Rightarrow> string list" where
  "select_booked_seats d bid = map bs_seat (filter (\<lambda>r. bs_booking_id r = bid) (booking_seats d))"

definition select_seats :: "database \<Rightarrow> rat \<Rightarrow> string list" where
  "select_seats d sid = map bs_seat (filter (\<lambda>r. bs_session_id r = sid) (booking_seats d))"

definition select_session :: "database \<Rightarrow> rat \<Rightarrow> session_row option" where
  "select_session d sid = List.find (\<lambda>s. of_nat (ss_id s) = sid) (sessions d)"


text \<open>
  A call to the store may also fail for a reason of the store's own (the file is locked,
  the disk is full). Which calls do is a parameter of every handler: a fault plan gives
  the error a statement throws, if it throws. A statement that throws changes nothing.
\<close>

datatype stmt =
    OPEN_DB
  | BEGIN_TRANSACTION
  | INSERT_BOOKING
  | INSERT_SEAT string
  | COMMIT
  | ROLLBACK
  | SELECT_BOOKING
  | SELECT_BOOKED_SEATS
  | SELECT_SEATS
  | SELECT_SESSION
  | SELECT_MOVIE

type_synonym faults = "stmt \<Rightarrow> js_error option"

definition no_faults :: faults where
  "no_faults = (\<lambda>s. None)"

definition run :: "faults \<Rightarrow> stmt \<Rightarrow> (js_error + 'a) \<Rightarrow> js_error + 'a" where
  "run F s r = (case F s of Some e \<Rightarrow> Inl e | None \<Rightarrow> r)"

section \<open>The handlers\<close>

record booking_summary =
  booking_id :: nat
  sum_name :: string
  sum_email :: string
  sum_phone_number :: string
  sum_session_id :: rat
  sum_seats :: "string list"

text \<open>
  \<^verbatim>\<open>details\<close> is the list of issues, the text of an error's message, or (in the older
  handler, which sends \<^verbatim>\<open>error.message\<close> of a \<^verbatim>\<open>ZodError\<close> too) the issues written
  out as text.
\<close>

datatype details = Issues "issue list" | Text string | IssuesAsText "issue list"

text \<open>
  The bodies the modelled handlers send: \<^verbatim>\<open>{success: true, bookingSummary}\<close>,
  \<^verbatim>\<open>{success: true}\<close> (the older handler), \<^verbatim>\<open>{error, details}\<close>, \<^verbatim>\<open>{error}\<close>
  and \<^verbatim>\<open>{seats, sessionDetails, movieDetails}\<close>.
\<close>

datatype body =
    Success booking_summary
  | SuccessOnly
  | Failure string details
  | ErrorOnly string
  | SeatMap "string list" session_row movie_row

record response =
  status :: nat
  body :: body

text \<open>
  A handler either sends a response or, when an error escapes it, its promise rejects
  and nothing is sent.
\<close>

datatype outcome = Sent response | Rejected js_error

datatype event = Ran stmt | Threw stmt | Responded nat

definition handleDbError :: "js_error \<Rightarrow> string \<Rightarrow> response" where
  "handleDbError error errorMessage =
     \<lparr>status = 500, body = Failure errorMessage (Text (err_message error))\<rparr>"

definition type_error_undefined :: js_error where
  "type_error_undefined =
     \<lparr>err_name = ''TypeError'', err_code = None,
      err_message = ''Cannot read properties of undefined (reading 'id')''\<rparr>"

subsection \<open>\<^verbatim>\<open>POST /book\<close>\<close>

text \<open>
  The loop over \<^verbatim>\<open>booking.seats\<close>: it stops at the first insert that throws, with
  the seats before it inserted in the open transaction.
\<close>

fun insert_seats :: "faults \<Rightarrow> connection \<Rightarrow> nat \<Rightarrow> rat \<Rightarrow> string list \<Rightarrow> store
    \<Rightarrow> js_error option \<times> store \<times> event list" where
  "insert_seats F c bid sid [] st = (None, st, [])"
| "insert_seats F c bid sid (seat # rest) st =
     (case run F (INSERT_SEAT seat) (insert_seat c bid sid seat st) of
        Inl e \<Rightarrow> (Some e, st, [Threw (INSERT_SEAT seat)])
      | Inr st' \<Rightarrow>
          (case insert_seats F c bid sid rest st' of
             (r, st'', evs) \<Rightarrow> (r, st'', Ran (INSERT_SEAT seat) # evs)))"

text \<open>
  The \<^verbatim>\<open>try\<close> block. It gives what was thrown or the response sent, the value of
  \<^verbatim>\<open>transactionActive\<close> at that point, the store as it is then and the calls made.
\<close>

definition book_try :: "(string \<Rightarrow> bool) \<Rightarrow> faults \<Rightarrow> connection \<Rightarrow> store \<Rightarrow> json
    \<Rightarrow> (thrown + response) \<times> bool \<times> store \<times> event list" where
  "book_try is_email F c st reqBody =
     (case BookingSchema is_email reqBody of
        Inl issues \<Rightarrow> (Inl (ZodError issues), False, st, [])
      | Inr booking \<Rightarrow>
     (case run F BEGIN_TRANSACTION (begin_transaction st) of
        Inl e \<Rightarrow> (Inl (Thrown e), False, st, [Threw BEGIN_TRANSACTION])
      | Inr st1 \<Rightarrow>
     (case run F INSERT_BOOKING (insert_booking c booking st1) of
        Inl e \<Rightarrow> (Inl (Thrown e), True, st1, [Ran BEGIN_TRANSACTION, Threw INSERT_BOOKING])
      | Inr (bookingId, st2) \<Rightarrow>
     (case insert_seats F c bookingId (session_id booking) (seats booking) st2 of
        (Some e, st3, evs) \<Rightarrow>
          (Inl (Thrown e), True, st3, [Ran BEGIN_TRANSACTION, Ran INSERT_BOOKING] @ evs)
      | (None, st3, evs) \<Rightarrow>
     (case run F COMMIT (commit st3) of
        Inl e \<Rightarrow>
          (Inl (Thrown e), True, st3,
           [Ran BEGIN_TRANSACTION, Ran INSERT_BOOKING] @ evs @ [Threw COMMIT])
      | Inr st4 \<Rightarrow>
     (case run F SELECT_BOOKING (Inr (select_booking (current st4) bookingId)) of
        Inl e \<Rightarrow>
          (Inl (Thrown e), False, st4,
           [Ran BEGIN_TRANSACTION, Ran INSERT_BOOKING] @ evs @ [Ran COMMIT, Threw SELECT_BOOKING])
      | Inr bookedDetails \<Rightarrow>
     (case run F SELECT_BOOKED_SEATS (Inr (select_booked_seats (current st4) bookingId)) of
        Inl e \<Rightarrow>
          (Inl (Thrown e), False, st4,
           [Ran BEGIN_TRANSACTION, Ran INSERT_BOOKING] @ evs
             @ [Ran COMMIT, Ran SELECT_BOOKING, Threw SELECT_BOOKED_SEATS])
      | Inr bookedSeats \<Rightarrow>
          (let evs' = [Ran BEGIN_TRANSACTION, Ran INSERT_BOOKING] @ evs
                        @ [Ran COMMIT, Ran SELECT_BOOKING, Ran SELECT_BOOKED_SEATS]
           in case bookedDetails of
                None \<Rightarrow> (Inl (Thrown type_error_undefined), False, st4, evs')
              | Some row \<Rightarrow>
                  (Inr \<lparr>status = 200,
                        body = Success \<lparr>booking_id = bk_id row, sum_name = bk_name row,
                                        sum_email = bk_email row,
                                        sum_phone_number = bk_phone_number row,
                                        sum_session_id = bk_session_id row,
                                        sum_seats = bookedSeats\<rparr>\<rparr>,
                   False, st4, evs')))))))))"

text \<open>
  The \<^verbatim>\<open>catch\<close> block: the rollback when \<^verbatim>\<open>transactionActive\<close> is set, then the
  response. An error of the rollback itself is thrown inside \<^verbatim>\<open>catch\<close> and escapes.
\<close>

definition book_catch :: "faults \<Rightarrow> thrown \<Rightarrow> bool \<Rightarrow> store \<Rightarrow> outcome \<times> store \<times> event list" where
  "book_catch F error transactionActive st =
     (case (if transactionActive then
              (case run F ROLLBACK (rollback st) of
                 Inl e \<Rightarrow> Inl (e, [Threw ROLLBACK])
               | Inr st' \<Rightarrow> Inr (st', [Ran ROLLBACK]))
            else Inr (st, [])) of
        Inl (e, evs) \<Rightarrow> (Rejected e, st, evs)
      | Inr (st', evs) \<Rightarrow>
          (let res = (case error of
                        ZodError issues \<Rightarrow>
                          \<lparr>status = 400, body = Failure ''Validation failed'' (Issues issues)\<rparr>
                      | Thrown e \<Rightarrow> handleDbError e ''Failed to book seats'')
           in (Sent res, st', evs @ [Responded (status res)])))"

text \<open>
  The handler of \<^verbatim>\<open>POST /book\<close>, on the database as committed when the request
  arrives. \<^verbatim>\<open>openDb\<close> is called before \<^verbatim>\<open>try\<close>: an error of it escapes.
\<close>

definition post_book :: "(string \<Rightarrow> bool) \<Rightarrow> faults \<Rightarrow> database \<Rightarrow> json
    \<Rightarrow> outcome \<times> store \<times> event list" where
  "post_book is_email F d reqBody =
     (case F OPEN_DB of
        Some e \<Rightarrow> (Rejected e, \<lparr>committed = d, tx = None\<rparr>, [Threw OPEN_DB])
      | None \<Rightarrow>
          (case book_try is_email F openDb \<lparr>committed = d, tx = None\<rparr> reqBody of
             (Inr res, transactionActive, st, evs) \<Rightarrow>
               (Sent res, st, Ran OPEN_DB # evs @ [Responded (status res)])
           | (Inl error, transactionActive, st, evs) \<Rightarrow>
               (case book_catch F error transactionActive st of
                  (out, st', evs') \<Rightarrow> (out, st', Ran OPEN_DB # evs @ evs'))))"

subsection \<open>\<^verbatim>\<open>POST /book\<close> of \<^verbatim>\<open>src/server.ts\<close>\<close>

text \<open>
  The older handler: the older schema, no summary (the response is \<^verbatim>\<open>{success: true}\<close>),
  and one answer for every error, \<^verbatim>\<open>handleDbError\<close>, a \<^verbatim>\<open>ZodError\<close> included.
\<close>

definition book_try_ts :: "(string \<Rightarrow> bool) \<Rightarrow> faults \<Rightarrow> connection \<Rightarrow> store \<Rightarrow> json
    \<Rightarrow> (thrown + response) \<times> bool \<times> store \<times> event list" where
  "book_try_ts is_email F c st reqBody =
     (case BookingSchema_ts is_email reqBody of
        Inl issues \<Rightarrow> (Inl (ZodError issues), False, st, [])
      | Inr booking \<Rightarrow>
     (case run F BEGIN_TRANSACTION (begin_transaction st) of
        Inl e \<Rightarrow> (Inl (Thrown e), False, st, [Threw BEGIN_TRANSACTION])
      | Inr st1 \<Rightarrow>
     (case run F INSERT_BOOKING (insert_booking c booking st1) of
        Inl e \<Rightarrow> (Inl (Thrown e), True, st1, [Ran BEGIN_TRANSACTION, Threw INSERT_BOOKING])
      | Inr (bookingId, st2) \<Rightarrow>
     (case insert_seats F c bookingId (session_id booking) (seats booking) st2 of
        (Some e, st3, evs) \<Rightarrow>
          (Inl (Thrown e), True, st3, [Ran BEGIN_TRANSACTION, Ran INSERT_BOOKING] @ evs)
      | (None, st3, evs) \<Rightarrow>
     (case run F COMMIT (commit st3) of
        Inl e \<Rightarrow>
          (Inl (Thrown e), True, st3,
           [Ran BEGIN_TRANSACTION, Ran INSERT_BOOKING] @ evs @ [Threw COMMIT])
      | Inr st4 \<Rightarrow>
          (Inr \<lparr>status = 200, body = SuccessOnly\<rparr>, False, st4,
           [Ran BEGIN_TRANSACTION, Ran INSERT_BOOKING] @ evs @ [Ran COMMIT]))))))"

definition book_catch_ts :: "faults \<Rightarrow> thrown \<Rightarrow> bool \<Rightarrow> store \<Rightarrow> outcome \<times> store \<times> event list" where
  "book_catch_ts F error transactionActive st =
     (case (if transactionActive then
              (case run F ROLLBACK (rollback st) of
                 Inl e \<Rightarrow> Inl (e, [Threw ROLLBACK])
               | Inr st' \<Rightarrow> Inr (st', [Ran ROLLBACK]))
            else Inr (st, [])) of
        Inl (e, evs) \<Rightarrow> (Rejected e, st, evs)
      | Inr (st', evs) \<Rightarrow>
          (let res = (case error of
                        ZodError issues \<Rightarrow>
                          \<lparr>status = 500,
                           body = Failure ''Failed to book seats'' (IssuesAsText issues)\<rparr>
                      | Thrown e \<Rightarrow> handleDbError e ''Failed to book seats'')
           in (Sent res, st', evs @ [Responded (status res)])))"

definition post_book_ts :: "(string \<Rightarrow> bool) \<Rightarrow> faults \<Rightarrow> database \<Rightarrow> json
    \<Rightarrow> outcome \<times> store \<times> event list" where
  "post_book_ts is_email F d reqBody =
     (case F OPEN_DB of
        Some e \<Rightarrow> (Rejected e, \<lparr>committed = d, tx = None\<rparr>, [Threw OPEN_DB])
      | None \<Rightarrow>
          (case book_try_ts is_email F openDb \<lparr>committed = d, tx = None\<rparr> reqBody of
             (Inr res, transactionActive, st, evs) \<Rightarrow>
               (Sent res, st, Ran OPEN_DB # evs @ [Responded (status res)])
           | (Inl error, transactionActive, st, evs) \<Rightarrow>
               (case book_catch_ts F error transactionActive st of
                  (out, st', evs') \<Rightarrow> (out, st', Ran OPEN_DB # evs @ evs'))))"

subsection \<open>\<^verbatim>\<open>GET /sessions/:id/seats\<close>\<close>


section \<open>The specification's vocabulary\<close>

text \<open>
  The shape of a payload the schema is specified to accept, field by field: a number
  from 1 up, a name that is not empty, an address, a telephone number of eight
  characters, a list of seats that is not empty and has no empty label.
\<close>

definition seat_ok :: "json \<Rightarrow> bool" where
  "seat_ok x = (case x of JStr s \<Rightarrow> s \<noteq> [] | _ \<Rightarrow> False)"





text \<open>An issue list mentions a field when one of its issues lies at or below that field.\<close>

definition mentions :: "issue list \<Rightarrow> string \<Rightarrow> bool" where
  "mentions is f = (\<exists>i \<in> set is. case path i of Key k # rest \<Rightarrow> k = f | _ \<Rightarrow> False)"


text \<open>
  The state of the two booking tables that the schema declares and the handler keeps: the
  primary keys and the pair (session, seat) are unique, and every seat claim belongs to a
  booking of the same session. With the schema of \<^verbatim>\<open>src/server.js\<close> every booking
  also has a seat claim.
\<close>

definition db_inv :: "database \<Rightarrow> bool" where
  "db_inv d \<longleftrightarrow>
     distinct (map bk_id (bookings d))
   \<and> distinct (map bs_id (booking_seats d))
   \<and> distinct (map (\<lambda>r. (bs_session_id r, bs_seat r)) (booking_seats d))
   \<and> (\<forall>r \<in> set (booking_seats d).
        \<exists>b \<in> set (bookings d). bk_id b = bs_booking_id r \<and> bk_session_id b = bs_session_id r)"

definition every_booking_seated :: "database \<Rightarrow> bool" where
  "every_booking_seated d \<longleftrightarrow>
     (\<forall>b \<in> set (bookings d). \<exists>r \<in> set (booking_seats d). bs_booking_id r = bk_id b)"

text \<open>
  Names for what a booking adds: the rowid the new booking gets, its row, and the
  database with that row.
\<close>

definition new_booking_id :: "database \<Rightarrow> nat" where
  "new_booking_id d = next_rowid (map bk_id (bookings d)) (bookings_seq d)"

definition booking_row_of :: "nat \<Rightarrow> booking \<Rightarrow> booking_row" where
  "booking_row_of i b =
     \<lparr>bk_id = i, bk_session_id = session_id b, bk_name = name b, bk_email = email b,
      bk_phone_number = phone_number b\<rparr>"

definition with_booking :: "database \<Rightarrow> booking \<Rightarrow> database" where
  "with_booking d b =
     d\<lparr>bookings := bookings d @ [booking_row_of (new_booking_id d) b],
       bookings_seq := new_booking_id d\<rparr>"

subsection \<open>Concrete requests and databases\<close>

definition request_with :: "rat \<Rightarrow> string \<Rightarrow> string list \<Rightarrow> json" where
  "request_with sid phone labels =
     JObj [(''session_id'', JNum sid), (''name'', JStr ''A''), (''email'', JStr ''a@x.com''),
           (''phone_number'', JStr phone), (''seats'', JArr (map JStr labels))]"

definition example_movie :: movie_row where
  "example_movie =
     \<lparr>mv_id = 1, mv_title = ''Film'', mv_description = ''A film'', mv_duration = 90,
      mv_genre = None, mv_actors = None, mv_release_date = ''2024-01-01'',
      mv_transfer_link = None, mv_image = ''uploads/film.png'', mv_wide_image = None\<rparr>"

definition example_session :: "rat \<Rightarrow> session_row" where
  "example_session mid =
     \<lparr>ss_id = 1, ss_movie_id = mid, ss_audio = ''EN'', ss_subtitle = None, ss_hall_no = 1,
      ss_date = ''2024-01-02'', ss_time = ''20:00''\<rparr>"

text \<open>One movie and one session; the session shows movie \<open>mid\<close>.\<close>

definition example_db :: "rat \<Rightarrow> database" where
  "example_db mid = initializeDb\<lparr>movies := [example_movie], sessions := [example_session mid]\<rparr>"

text \<open>That database after a booking of seats A1 and A2 for the session.\<close>

definition booked_db :: database where
  "booked_db =
     (example_db 1)
       \<lparr>bookings := [\<lparr>bk_id = 1, bk_session_id = 1, bk_name = ''A'', bk_email = ''a@x.com'',
                       bk_phone_number = ''12345678''\<rparr>],
        booking_seats := [\<lparr>bs_id = 1, bs_booking_id = 1, bs_session_id = 1, bs_seat = ''A1''\<rparr>,
                          \<lparr>bs_id = 2, bs_booking_id = 1, bs_session_id = 1, bs_seat = ''A2''\<rparr>],
        bookings_seq := 1, booking_seats_seq := 2\<rparr>"

definition busy :: js_error where
  "busy = \<lparr>err_name = ''Error'', err_code = Some ''SQLITE_BUSY'',
           err_message = ''SQLITE_BUSY: database is locked''\<rparr>"

section \<open>The validator\<close>

lemma z_elements_issues_empty:
  "fst (z_elements (z_string_min (Suc 0) msg) p i xs) = [] \<longleftrightarrow> (\<forall>x \<in> set xs. seat_ok x)"
  by (induction xs arbitrary: i)
     (auto simp: Let_def issues_of_def z_string_min_def seat_ok_def split: json.splits)

lemma z_elements_values:
  "\<forall>x \<in> set xs. seat_ok x \<Longrightarrow> map JStr (snd (z_elements (z_string_min (Suc 0) msg) p i xs)) = xs"
  by (induction xs arbitrary: i)
     (auto simp: Let_def issues_of_def z_string_min_def seat_ok_def split: json.splits)

lemma z_elements_nonempty:
  "\<forall>x \<in> set xs. seat_ok x \<Longrightarrow> s \<in> set (snd (z_elements (z_string_min (Suc 0) msg) p i xs)) \<Longrightarrow> s \<noteq> []"
  by (induction xs arbitrary: i)
     (auto simp: Let_def issues_of_def z_string_min_def seat_ok_def split: json.splits)


lemma session_id_parsed:
  "z_number_min 1 msg p v = Inr x \<longleftrightarrow> v = Some (JNum x) \<and> 1 \<le> x"
  by (auto simp: z_number_min_def split: option.splits json.splits)

lemma name_parsed:
  "z_string_min (Suc 0) msg p v = Inr s \<longleftrightarrow> v = Some (JStr s) \<and> s \<noteq> []"
  by (auto simp: z_string_min_def split: option.splits json.splits)

lemma email_parsed:
  "z_string_email e msg p v = Inr s \<longleftrightarrow> v = Some (JStr s) \<and> e s"
  by (auto simp: z_string_email_def split: option.splits json.splits)

lemma phone_number_parsed:
  "z_string_length 8 msg p v = Inr s \<longleftrightarrow> v = Some (JStr s) \<and> length s = 8"
  by (auto simp: z_string_length_def split: option.splits json.splits)

lemma seats_parsed:
  "z_array_min (z_string_min (Suc 0) m1) (Suc 0) m2 p v = Inr ss \<longleftrightarrow>
     v = Some (JArr (map JStr ss)) \<and> ss \<noteq> [] \<and> (\<forall>s \<in> set ss. s \<noteq> [])"
proof
  assume a: "z_array_min (z_string_min (Suc 0) m1) (Suc 0) m2 p v = Inr ss"
  then obtain xs where v: "v = Some (JArr xs)"
    by (auto simp: z_array_min_def split: option.splits json.splits)
  from a v have ne: "xs \<noteq> []" and ok: "fst (z_elements (z_string_min (Suc 0) m1) p 0 xs) = []"
    and ss: "ss = snd (z_elements (z_string_min (Suc 0) m1) p 0 xs)"
    by (auto simp: z_array_min_def split: list.splits if_splits)
  from ok have all: "\<forall>x \<in> set xs. seat_ok x" by (simp add: z_elements_issues_empty)
  from all ss have "map JStr ss = xs" by (simp add: z_elements_values)
  moreover from all ss have "\<forall>s \<in> set ss. s \<noteq> []" by (auto dest: z_elements_nonempty)
  moreover from \<open>map JStr ss = xs\<close> ne have "ss \<noteq> []" by auto
  ultimately show "v = Some (JArr (map JStr ss)) \<and> ss \<noteq> [] \<and> (\<forall>s \<in> set ss. s \<noteq> [])"
    using v by simp
next
  assume a: "v = Some (JArr (map JStr ss)) \<and> ss \<noteq> [] \<and> (\<forall>s \<in> set ss. s \<noteq> [])"
  then have all: "\<forall>x \<in> set (map JStr ss). seat_ok x" by (auto simp: seat_ok_def)
  then have "fst (z_elements (z_string_min (Suc 0) m1) p 0 (map JStr ss)) = []"
    by (simp only: z_elements_issues_empty)
  moreover from all have "map JStr (snd (z_elements (z_string_min (Suc 0) m1) p 0 (map JStr ss))) = map JStr ss"
    by (rule z_elements_values)
  then have "snd (z_elements (z_string_min (Suc 0) m1) p 0 (map JStr ss)) = ss"
    by (simp add: inj_on_def map_eq_conv inj_map_eq_map[unfolded inj_on_def])
  ultimately show "z_array_min (z_string_min (Suc 0) m1) (Suc 0) m2 p v = Inr ss"
    using a by (simp add: z_array_min_def)
qed


lemma BookingSchema_fields:
  "BookingSchema e (JObj kvs) = Inr \<lparr>session_id = a, name = n, email = m, phone_number = ph, seats = ss\<rparr> \<longleftrightarrow>
     z_number_min 1 ''Session ID is required'' [Key ''session_id''] (field kvs ''session_id'') = Inr a
   \<and> z_string_min (Suc 0) ''Name is required'' [Key ''name''] (field kvs ''name'') = Inr n
   \<and> z_string_email e ''Invalid email address'' [Key ''email''] (field kvs ''email'') = Inr m
   \<and> z_string_length 8 ''Invalid phone number'' [Key ''phone_number''] (field kvs ''phone_number'') = Inr ph
   \<and> z_array_min (z_string_min (Suc 0) ''Seat is required'') (Suc 0)
        ''At least one seat must be selected'' [Key ''seats''] (field kvs ''seats'') = Inr ss"
  by (simp add: BookingSchema_def Let_def split: sum.splits)



lemma BookingSchema_Inr_iff:
  "BookingSchema e b = Inr r \<longleftrightarrow>
     (\<exists>kvs. b = JObj kvs
        \<and> field kvs ''session_id'' = Some (JNum (session_id r)) \<and> 1 \<le> session_id r
        \<and> field kvs ''name'' = Some (JStr (name r)) \<and> name r \<noteq> []
        \<and> field kvs ''email'' = Some (JStr (email r)) \<and> e (email r)
        \<and> field kvs ''phone_number'' = Some (JStr (phone_number r)) \<and> length (phone_number r) = 8
        \<and> field kvs ''seats'' = Some (JArr (map JStr (seats r))) \<and> seats r \<noteq> []
        \<and> (\<forall>s \<in> set (seats r). s \<noteq> []))"
proof (cases b)
  case (JObj kvs)
  obtain a n m ph ss where r: "r = \<lparr>session_id = a, name = n, email = m, phone_number = ph, seats = ss\<rparr>"
    by (cases r) simp
  show ?thesis
    by (simp add: JObj r BookingSchema_fields session_id_parsed name_parsed email_parsed
      phone_number_parsed seats_parsed)
qed (simp_all add: BookingSchema_def)










lemma mentions_append [simp]: "mentions (xs @ ys) f \<longleftrightarrow> mentions xs f \<or> mentions ys f"
  by (auto simp: mentions_def)

lemma mentions_Nil [simp]: "\<not> mentions [] f"
  by (simp add: mentions_def)











section \<open>The booking handler, path by path\<close>

lemma post_book_open_failed:
  "F OPEN_DB = Some err \<Longrightarrow>
   post_book e F d rb = (Rejected err, \<lparr>committed = d, tx = None\<rparr>, [Threw OPEN_DB])"
  by (simp add: post_book_def)

lemma post_book_rejects:
  "F OPEN_DB = None \<Longrightarrow> BookingSchema e rb = Inl issues \<Longrightarrow>
   post_book e F d rb =
     (Sent \<lparr>status = 400, body = Failure ''Validation failed'' (Issues issues)\<rparr>,
      \<lparr>committed = d, tx = None\<rparr>, [Ran OPEN_DB, Responded 400])"
  by (simp add: post_book_def book_try_def book_catch_def)

lemma fold_max_ge: "x \<in> set xs \<Longrightarrow> x \<le> fold max xs (a::nat)"
proof -
  assume "x \<in> set xs"
  then have "x \<le> Max (set (a # xs))" by (intro Max_ge) auto
  then show ?thesis by (simp only: Max.set_eq_fold)
qed

lemma next_rowid_fresh: "next_rowid xs a \<notin> set xs"
  using fold_max_ge [of "next_rowid xs a" xs a] by (auto simp: next_rowid_def)

lemma next_rowid_above: "x \<in> set xs \<Longrightarrow> x < next_rowid xs a"
  using fold_max_ge [of x xs a] by (simp add: next_rowid_def)

lemma insert_seat_open:
  "tx st = Some t \<Longrightarrow>
   insert_seat openDb bid sid seat st =
     (if seat_taken t sid seat then Inl unique_seat_failed
      else Inr (st\<lparr>tx := Some (t\<lparr>booking_seats := booking_seats t @
                 [\<lparr>bs_id = next_rowid (map bs_id (booking_seats t)) (booking_seats_seq t),
                   bs_booking_id = bid, bs_session_id = sid, bs_seat = seat\<rparr>],
               booking_seats_seq := next_rowid (map bs_id (booking_seats t)) (booking_seats_seq t)\<rparr>)\<rparr>))"
  by (simp add: insert_seat_def openDb_def current_def put_def Let_def)

lemma insert_seats_frame:
  "insert_seats F openDb bid sid ss st = (r, st', evs) \<Longrightarrow> tx st = Some t \<Longrightarrow>
   \<exists>rows q. st' = st\<lparr>tx := Some (t\<lparr>booking_seats := booking_seats t @ rows, booking_seats_seq := q\<rparr>)\<rparr>
     \<and> (\<forall>x \<in> set rows. bs_booking_id x = bid \<and> bs_session_id x = sid)
     \<and> set (map bs_seat rows) \<subseteq> set ss
     \<and> (r = None \<longrightarrow> map bs_seat rows = ss)
     \<and> (distinct (map bs_id (booking_seats t)) \<longrightarrow> distinct (map bs_id (booking_seats t @ rows)))
     \<and> (distinct (map (\<lambda>r. (bs_session_id r, bs_seat r)) (booking_seats t))
          \<longrightarrow> distinct (map (\<lambda>r. (bs_session_id r, bs_seat r)) (booking_seats t @ rows)))"
proof (induction ss arbitrary: st t r st' evs)
  case Nil
  then have "st' = st\<lparr>tx := Some (t\<lparr>booking_seats := booking_seats t @ [], booking_seats_seq := booking_seats_seq t\<rparr>)\<rparr>"
    by simp
  moreover from Nil have "r = None" by simp
  ultimately show ?case by (intro exI [of _ "[]"] exI [of _ "booking_seats_seq t"]) simp
next
  case (Cons seat rest)
  show ?case
  proof (cases "run F (INSERT_SEAT seat) (insert_seat openDb bid sid seat st)")
    case (Inl err)
    with Cons.prems have "st' = st" "r = Some err" by simp_all
    then have "st' = st\<lparr>tx := Some (t\<lparr>booking_seats := booking_seats t @ [], booking_seats_seq := booking_seats_seq t\<rparr>)\<rparr>"
      using Cons.prems(2) by simp
    with \<open>r = Some err\<close> show ?thesis
      by (intro exI [of _ "[]"] exI [of _ "booking_seats_seq t"]) simp
  next
    case (Inr st1)
    let ?i = "next_rowid (map bs_id (booking_seats t)) (booking_seats_seq t)"
    let ?row = "\<lparr>bs_id = ?i, bs_booking_id = bid, bs_session_id = sid, bs_seat = seat\<rparr>"
    let ?t1 = "t\<lparr>booking_seats := booking_seats t @ [?row], booking_seats_seq := ?i\<rparr>"
    from Inr Cons.prems(2) have free: "\<not> seat_taken t sid seat" and st1: "st1 = st\<lparr>tx := Some ?t1\<rparr>"
      by (auto simp: run_def insert_seat_open split: option.splits if_splits)
    from Inr Cons.prems(1) obtain evs' where
      rec: "insert_seats F openDb bid sid rest st1 = (r, st', evs')"
      by (auto split: prod.splits)
    from st1 have "tx st1 = Some ?t1" by simp
    from Cons.IH [OF rec this] obtain rows q where
      st': "st' = st1\<lparr>tx := Some (?t1\<lparr>booking_seats := booking_seats ?t1 @ rows, booking_seats_seq := q\<rparr>)\<rparr>"
      and own: "\<forall>x \<in> set rows. bs_booking_id x = bid \<and> bs_session_id x = sid"
      and sub: "set (map bs_seat rows) \<subseteq> set rest"
      and all: "r = None \<longrightarrow> map bs_seat rows = rest"
      and ids: "distinct (map bs_id (booking_seats ?t1)) \<longrightarrow> distinct (map bs_id (booking_seats ?t1 @ rows))"
      and keys: "distinct (map (\<lambda>r. (bs_session_id r, bs_seat r)) (booking_seats ?t1))
          \<longrightarrow> distinct (map (\<lambda>r. (bs_session_id r, bs_seat r)) (booking_seats ?t1 @ rows))"
      by blast
    have fresh: "?i \<notin> set (map bs_id (booking_seats t))" by (rule next_rowid_fresh)
    have key: "(sid, seat) \<notin> set (map (\<lambda>r. (bs_session_id r, bs_seat r)) (booking_seats t))"
      using free by (auto simp: seat_taken_def)
    have "st' = st\<lparr>tx := Some (t\<lparr>booking_seats := booking_seats t @ (?row # rows), booking_seats_seq := q\<rparr>)\<rparr>"
      using st' st1 by simp
    moreover have "\<forall>x \<in> set (?row # rows). bs_booking_id x = bid \<and> bs_session_id x = sid"
      using own by simp
    moreover have "set (map bs_seat (?row # rows)) \<subseteq> set (seat # rest)"
      using sub by auto
    moreover have "r = None \<longrightarrow> map bs_seat (?row # rows) = seat # rest"
      using all by simp
    moreover have "distinct (map bs_id (booking_seats t)) \<longrightarrow> distinct (map bs_id (booking_seats t @ (?row # rows)))"
      using ids fresh by simp
    moreover have "distinct (map (\<lambda>r. (bs_session_id r, bs_seat r)) (booking_seats t))
          \<longrightarrow> distinct (map (\<lambda>r. (bs_session_id r, bs_seat r)) (booking_seats t @ (?row # rows)))"
      using keys key by simp
    ultimately show ?thesis
      by - (rule exI [of _ "?row # rows"], rule exI [of _ q], (intro conjI; assumption))
  qed
qed


lemma insert_seats_trace:
  "insert_seats F openDb bid sid ss st = (r, st', evs) \<Longrightarrow> tx st = Some t \<Longrightarrow>
   (case r of
      None \<Rightarrow>
        evs = map (\<lambda>s. Ran (INSERT_SEAT s)) ss \<and> distinct ss
        \<and> (\<forall>s \<in> set ss. \<not> seat_taken t sid s \<and> F (INSERT_SEAT s) = None)
    | Some err \<Rightarrow>
        (\<exists>pre s post. ss = pre @ s # post
           \<and> evs = map (\<lambda>s. Ran (INSERT_SEAT s)) pre @ [Threw (INSERT_SEAT s)]
           \<and> (case F (INSERT_SEAT s) of
                Some e' \<Rightarrow> err = e'
              | None \<Rightarrow> err = unique_seat_failed \<and> (seat_taken t sid s \<or> s \<in> set pre))))"
proof (induction ss arbitrary: st t r st' evs)
  case Nil
  then show ?case by simp
next
  case (Cons seat rest)
  show ?case
  proof (cases "run F (INSERT_SEAT seat) (insert_seat openDb bid sid seat st)")
    case (Inl err)
    with Cons.prems have r: "r = Some err" and evs: "evs = [Threw (INSERT_SEAT seat)]"
      by simp_all
    from Inl Cons.prems(2) have
      "case F (INSERT_SEAT seat) of Some e' \<Rightarrow> err = e'
       | None \<Rightarrow> err = unique_seat_failed \<and> (seat_taken t sid seat \<or> seat \<in> set [])"
      by (auto simp: run_def insert_seat_open split: option.splits if_splits)
    with evs have "seat # rest = [] @ seat # rest
        \<and> evs = map (\<lambda>s. Ran (INSERT_SEAT s)) [] @ [Threw (INSERT_SEAT seat)]
        \<and> (case F (INSERT_SEAT seat) of Some e' \<Rightarrow> err = e'
            | None \<Rightarrow> err = unique_seat_failed \<and> (seat_taken t sid seat \<or> seat \<in> set []))"
      by simp
    then show ?thesis unfolding r by (simp only: option.case) blast
  next
    case (Inr st1)
    let ?i = "next_rowid (map bs_id (booking_seats t)) (booking_seats_seq t)"
    let ?row = "\<lparr>bs_id = ?i, bs_booking_id = bid, bs_session_id = sid, bs_seat = seat\<rparr>"
    let ?t1 = "t\<lparr>booking_seats := booking_seats t @ [?row], booking_seats_seq := ?i\<rparr>"
    from Inr Cons.prems(2) have free: "\<not> seat_taken t sid seat" and st1: "st1 = st\<lparr>tx := Some ?t1\<rparr>"
      and nofault: "F (INSERT_SEAT seat) = None"
      by (auto simp: run_def insert_seat_open split: option.splits if_splits)
    from Inr Cons.prems(1) obtain evs' where
      rec: "insert_seats F openDb bid sid rest st1 = (r, st', evs')"
      and evs: "evs = Ran (INSERT_SEAT seat) # evs'"
      by (auto split: prod.splits)
    from st1 have tx1: "tx st1 = Some ?t1" by simp
    have taken1: "\<And>x. seat_taken ?t1 sid x \<longleftrightarrow> seat_taken t sid x \<or> x = seat"
      by (auto simp: seat_taken_def)
    note IH = Cons.IH [OF rec tx1]
    show ?thesis
    proof (cases r)
      case None
      with IH have "evs' = map (\<lambda>s. Ran (INSERT_SEAT s)) rest" "distinct rest"
        "\<forall>s \<in> set rest. \<not> seat_taken ?t1 sid s \<and> F (INSERT_SEAT s) = None"
        by simp_all
      with evs free nofault show ?thesis
        unfolding None by (auto simp: taken1)
    next
      case (Some err)
      with IH obtain pre s post where
        split: "rest = pre @ s # post"
        and evs': "evs' = map (\<lambda>s. Ran (INSERT_SEAT s)) pre @ [Threw (INSERT_SEAT s)]"
        and why: "case F (INSERT_SEAT s) of Some e' \<Rightarrow> err = e'
                  | None \<Rightarrow> err = unique_seat_failed \<and> (seat_taken ?t1 sid s \<or> s \<in> set pre)"
        by auto
      have "seat # rest = (seat # pre) @ s # post
          \<and> evs = map (\<lambda>s. Ran (INSERT_SEAT s)) (seat # pre) @ [Threw (INSERT_SEAT s)]
          \<and> (case F (INSERT_SEAT s) of Some e' \<Rightarrow> err = e'
              | None \<Rightarrow> err = unique_seat_failed \<and> (seat_taken t sid s \<or> s \<in> set (seat # pre)))"
        using split evs evs' why by (auto simp: taken1 split: option.splits)
      then show ?thesis unfolding Some by (simp only: option.case) blast
    qed
  qed
qed

lemma insert_seats_succeeds:
  assumes "tx st = Some t" "distinct ss"
    and "\<forall>s \<in> set ss. \<not> seat_taken t sid s \<and> F (INSERT_SEAT s) = None"
  shows "\<exists>st'. insert_seats F openDb bid sid ss st = (None, st', map (\<lambda>s. Ran (INSERT_SEAT s)) ss)"
proof -
  obtain r st' evs where run: "insert_seats F openDb bid sid ss st = (r, st', evs)"
    by (cases "insert_seats F openDb bid sid ss st") auto
  note tr = insert_seats_trace [OF run assms(1)]
  show ?thesis
  proof (cases r)
    case None
    with tr run show ?thesis by simp
  next
    case (Some err)
    with tr obtain pre s post where "ss = pre @ s # post"
      and "case F (INSERT_SEAT s) of Some e' \<Rightarrow> err = e'
           | None \<Rightarrow> err = unique_seat_failed \<and> (seat_taken t sid s \<or> s \<in> set pre)"
      by auto
    with assms(2,3) have False by (auto split: option.splits)
    then show ?thesis ..
  qed
qed


lemma book_catch_active:
  "tx st = Some t \<Longrightarrow>
   book_catch F (Thrown err) True st =
     (case F ROLLBACK of
        Some e' \<Rightarrow> (Rejected e', st, [Threw ROLLBACK])
      | None \<Rightarrow> (Sent (handleDbError err ''Failed to book seats''), st\<lparr>tx := None\<rparr>,
                 [Ran ROLLBACK, Responded 500]))"
  by (simp add: book_catch_def run_def rollback_def handleDbError_def split: option.splits)

lemma book_catch_inactive:
  "book_catch F (Thrown err) False st =
     (Sent (handleDbError err ''Failed to book seats''), st, [Responded 500])"
  by (simp add: book_catch_def handleDbError_def)

lemma insert_booking_open:
  "insert_booking openDb b \<lparr>committed = d, tx = Some d\<rparr> =
     Inr (new_booking_id d, \<lparr>committed = d, tx = Some (with_booking d b)\<rparr>)"
  by (simp add: insert_booking_def openDb_def current_def put_def Let_def new_booking_id_def
      with_booking_def booking_row_of_def)

lemma book_try_begin_failed:
  "BookingSchema e rb = Inr b \<Longrightarrow> F BEGIN_TRANSACTION = Some err \<Longrightarrow>
   book_try e F openDb \<lparr>committed = d, tx = None\<rparr> rb =
     (Inl (Thrown err), False, \<lparr>committed = d, tx = None\<rparr>, [Threw BEGIN_TRANSACTION])"
  by (simp add: book_try_def run_def)

lemma book_try_booking_failed:
  "BookingSchema e rb = Inr b \<Longrightarrow> F BEGIN_TRANSACTION = None \<Longrightarrow> F INSERT_BOOKING = Some err \<Longrightarrow>
   book_try e F openDb \<lparr>committed = d, tx = None\<rparr> rb =
     (Inl (Thrown err), True, \<lparr>committed = d, tx = Some d\<rparr>,
      [Ran BEGIN_TRANSACTION, Threw INSERT_BOOKING])"
  by (simp add: book_try_def run_def begin_transaction_def)

lemma book_try_seat_failed:
  "BookingSchema e rb = Inr b \<Longrightarrow> F BEGIN_TRANSACTION = None \<Longrightarrow> F INSERT_BOOKING = None \<Longrightarrow>
   insert_seats F openDb (new_booking_id d) (session_id b) (seats b)
      \<lparr>committed = d, tx = Some (with_booking d b)\<rparr> = (Some err, st3, sevs) \<Longrightarrow>
   book_try e F openDb \<lparr>committed = d, tx = None\<rparr> rb =
     (Inl (Thrown err), True, st3, [Ran BEGIN_TRANSACTION, Ran INSERT_BOOKING] @ sevs)"
  by (simp add: book_try_def run_def begin_transaction_def insert_booking_open)

lemma book_try_commit_failed:
  "BookingSchema e rb = Inr b \<Longrightarrow> F BEGIN_TRANSACTION = None \<Longrightarrow> F INSERT_BOOKING = None \<Longrightarrow>
   insert_seats F openDb (new_booking_id d) (session_id b) (seats b)
      \<lparr>committed = d, tx = Some (with_booking d b)\<rparr> = (None, st3, sevs) \<Longrightarrow>
   F COMMIT = Some err \<Longrightarrow>
   book_try e F openDb \<lparr>committed = d, tx = None\<rparr> rb =
     (Inl (Thrown err), True, st3, [Ran BEGIN_TRANSACTION, Ran INSERT_BOOKING] @ sevs @ [Threw COMMIT])"
  by (simp add: book_try_def run_def begin_transaction_def insert_booking_open)

lemma book_try_committed:
  "BookingSchema e rb = Inr b \<Longrightarrow> F BEGIN_TRANSACTION = None \<Longrightarrow> F INSERT_BOOKING = None \<Longrightarrow>
   insert_seats F openDb (new_booking_id d) (session_id b) (seats b)
      \<lparr>committed = d, tx = Some (with_booking d b)\<rparr> = (None, \<lparr>committed = d, tx = Some t3\<rparr>, sevs) \<Longrightarrow>
   F COMMIT = None \<Longrightarrow>
   book_try e F openDb \<lparr>committed = d, tx = None\<rparr> rb =
     (case F SELECT_BOOKING of
        Some err \<Rightarrow>
          (Inl (Thrown err), False, \<lparr>committed = t3, tx = None\<rparr>,
           [Ran BEGIN_TRANSACTION, Ran INSERT_BOOKING] @ sevs @ [Ran COMMIT, Threw SELECT_BOOKING])
      | None \<Rightarrow>
     (case F SELECT_BOOKED_SEATS of
        Some err \<Rightarrow>
          (Inl (Thrown err), False, \<lparr>committed = t3, tx = None\<rparr>,
           [Ran BEGIN_TRANSACTION, Ran INSERT_BOOKING] @ sevs
             @ [Ran COMMIT, Ran SELECT_BOOKING, Threw SELECT_BOOKED_SEATS])
      | None \<Rightarrow>
     (case select_booking t3 (new_booking_id d) of
        None \<Rightarrow>
          (Inl (Thrown type_error_undefined), False, \<lparr>committed = t3, tx = None\<rparr>,
           [Ran BEGIN_TRANSACTION, Ran INSERT_BOOKING] @ sevs
             @ [Ran COMMIT, Ran SELECT_BOOKING, Ran SELECT_BOOKED_SEATS])
      | Some row \<Rightarrow>
          (Inr \<lparr>status = 200,
                body = Success \<lparr>booking_id = bk_id row, sum_name = bk_name row,
                                sum_email = bk_email row, sum_phone_number = bk_phone_number row,
                                sum_session_id = bk_session_id row,
                                sum_seats = select_booked_seats t3 (new_booking_id d)\<rparr>\<rparr>,
           False, \<lparr>committed = t3, tx = None\<rparr>,
           [Ran BEGIN_TRANSACTION, Ran INSERT_BOOKING] @ sevs
             @ [Ran COMMIT, Ran SELECT_BOOKING, Ran SELECT_BOOKED_SEATS]))))"
  by (simp add: book_try_def run_def begin_transaction_def insert_booking_open commit_def
      current_def Let_def split: option.splits)


lemma post_book_aborted:
  "F OPEN_DB = None \<Longrightarrow>
   book_try e F openDb \<lparr>committed = d, tx = None\<rparr> rb = (Inl (Thrown err), True, st3, tevs) \<Longrightarrow>
   tx st3 = Some t \<Longrightarrow>
   post_book e F d rb =
     (case F ROLLBACK of
        Some e' \<Rightarrow> (Rejected e', st3, Ran OPEN_DB # tevs @ [Threw ROLLBACK])
      | None \<Rightarrow> (Sent (handleDbError err ''Failed to book seats''), st3\<lparr>tx := None\<rparr>,
                 Ran OPEN_DB # tevs @ [Ran ROLLBACK, Responded 500]))"
  by (simp add: post_book_def book_catch_active split: option.splits)

lemma post_book_unrolled:
  "F OPEN_DB = None \<Longrightarrow>
   book_try e F openDb \<lparr>committed = d, tx = None\<rparr> rb = (Inl (Thrown err), False, st3, tevs) \<Longrightarrow>
   post_book e F d rb =
     (Sent (handleDbError err ''Failed to book seats''), st3, Ran OPEN_DB # tevs @ [Responded 500])"
  by (simp add: post_book_def book_catch_inactive)

lemma post_book_sent:
  "F OPEN_DB = None \<Longrightarrow>
   book_try e F openDb \<lparr>committed = d, tx = None\<rparr> rb = (Inr res, active, st3, tevs) \<Longrightarrow>
   post_book e F d rb = (Sent res, st3, Ran OPEN_DB # tevs @ [Responded (status res)])"
  by (simp add: post_book_def)

lemma find_snoc:
  "List.find P (xs @ [y]) = (case List.find P xs of Some x \<Rightarrow> Some x | None \<Rightarrow> if P y then Some y else None)"
  by (induction xs) auto

lemma select_new_booking:
  "select_booking ((with_booking d b)\<lparr>booking_seats := xs, booking_seats_seq := q\<rparr>) (new_booking_id d)
     = Some (booking_row_of (new_booking_id d) b)"
proof -
  have "\<And>x. x \<in> set (bookings d) \<Longrightarrow> bk_id x \<noteq> new_booking_id d"
    using next_rowid_above [of _ "map bk_id (bookings d)" "bookings_seq d"]
    by (fastforce simp: new_booking_id_def)
  then have "List.find (\<lambda>x. bk_id x = new_booking_id d) (bookings d) = None"
    by (simp add: find_None_iff)
  then show ?thesis
    by (simp add: select_booking_def with_booking_def find_snoc booking_row_of_def)
qed

lemma seat_taken_with_booking [simp]:
  "seat_taken (with_booking d b) sid x = seat_taken d sid x"
  by (simp add: seat_taken_def with_booking_def)

lemma post_book_cases [consumes 1, case_names open_failed invalid begin_failed aborted
    rollback_failed read_failed success]:
  assumes run: "post_book e F d rb = (out, st, evs)"
  obtains
    (open_failed) err where
      "F OPEN_DB = Some err" "out = Rejected err" "st = \<lparr>committed = d, tx = None\<rparr>"
      "evs = [Threw OPEN_DB]"
  | (invalid) issues where
      "F OPEN_DB = None" "BookingSchema e rb = Inl issues"
      "out = Sent \<lparr>status = 400, body = Failure ''Validation failed'' (Issues issues)\<rparr>"
      "st = \<lparr>committed = d, tx = None\<rparr>" "evs = [Ran OPEN_DB, Responded 400]"
  | (begin_failed) b err where
      "F OPEN_DB = None" "BookingSchema e rb = Inr b" "F BEGIN_TRANSACTION = Some err"
      "out = Sent (handleDbError err ''Failed to book seats'')"
      "st = \<lparr>committed = d, tx = None\<rparr>"
      "evs = [Ran OPEN_DB, Threw BEGIN_TRANSACTION, Responded 500]"
  | (aborted) b err s pre where
      "F OPEN_DB = None" "BookingSchema e rb = Inr b" "F BEGIN_TRANSACTION = None"
      "F ROLLBACK = None"
      "s = INSERT_BOOKING \<or> s = COMMIT \<or> (\<exists>seat. s = INSERT_SEAT seat)"
      "F s = Some err \<or>
       (F s = None \<and> err = unique_seat_failed
        \<and> (\<exists>seat. s = INSERT_SEAT seat
              \<and> (seat_taken d (session_id b) seat
                   \<or> (Ran s \<in> set pre \<and> \<not> distinct (seats b)))))"
      "\<forall>seat. s = INSERT_SEAT seat \<longrightarrow> seat \<in> set (seats b)"
      "\<forall>x. Threw x \<notin> set pre" "\<forall>n. Responded n \<notin> set pre" "Ran COMMIT \<notin> set pre"
      "out = Sent (handleDbError err ''Failed to book seats'')"
      "st = \<lparr>committed = d, tx = None\<rparr>"
      "evs = pre @ [Threw s, Ran ROLLBACK, Responded 500]"
  | (rollback_failed) b err s pre t where
      "F OPEN_DB = None" "BookingSchema e rb = Inr b" "F BEGIN_TRANSACTION = None"
      "F ROLLBACK = Some err"
      "s = INSERT_BOOKING \<or> s = COMMIT \<or> (\<exists>seat. s = INSERT_SEAT seat)"
      "F s \<noteq> None \<or>
       (\<exists>seat. s = INSERT_SEAT seat
          \<and> (seat_taken d (session_id b) seat \<or> \<not> distinct (seats b)))"
      "\<forall>seat. s = INSERT_SEAT seat \<longrightarrow> seat \<in> set (seats b)"
      "\<forall>x. Threw x \<notin> set pre" "\<forall>n. Responded n \<notin> set pre" "Ran COMMIT \<notin> set pre"
      "out = Rejected err"
      "st = \<lparr>committed = d, tx = Some t\<rparr>"
      "evs = pre @ [Threw s, Threw ROLLBACK]"
  | (read_failed) b err s pre rows q where
      "F OPEN_DB = None" "BookingSchema e rb = Inr b" "F BEGIN_TRANSACTION = None"
      "F INSERT_BOOKING = None" "F COMMIT = None"
      "s = SELECT_BOOKING \<or> s = SELECT_BOOKED_SEATS" "F s = Some err"
      "s = SELECT_BOOKED_SEATS \<longrightarrow> F SELECT_BOOKING = None"
      "distinct (seats b)"
      "\<forall>x \<in> set (seats b). \<not> seat_taken d (session_id b) x \<and> F (INSERT_SEAT x) = None"
      "map bs_seat rows = seats b"
      "\<forall>x \<in> set rows. bs_booking_id x = new_booking_id d \<and> bs_session_id x = session_id b"
      "distinct (map bs_id (booking_seats d)) \<longrightarrow> distinct (map bs_id (booking_seats d @ rows))"
      "distinct (map (\<lambda>r. (bs_session_id r, bs_seat r)) (booking_seats d))
         \<longrightarrow> distinct (map (\<lambda>r. (bs_session_id r, bs_seat r)) (booking_seats d @ rows))"
      "Ran COMMIT \<in> set pre" "Ran ROLLBACK \<notin> set pre" "\<forall>x. Threw x \<notin> set pre"
      "out = Sent (handleDbError err ''Failed to book seats'')"
      "st = \<lparr>committed = (with_booking d b)\<lparr>booking_seats := booking_seats d @ rows,
                                               booking_seats_seq := q\<rparr>, tx = None\<rparr>"
      "evs = pre @ [Threw s, Responded 500]"
  | (success) b rows q where
      "F OPEN_DB = None" "BookingSchema e rb = Inr b" "F BEGIN_TRANSACTION = None"
      "F INSERT_BOOKING = None" "F COMMIT = None"
      "F SELECT_BOOKING = None" "F SELECT_BOOKED_SEATS = None"
      "distinct (seats b)"
      "\<forall>x \<in> set (seats b). \<not> seat_taken d (session_id b) x \<and> F (INSERT_SEAT x) = None"
      "map bs_seat rows = seats b"
      "\<forall>x \<in> set rows. bs_booking_id x = new_booking_id d \<and> bs_session_id x = session_id b"
      "distinct (map bs_id (booking_seats d)) \<longrightarrow> distinct (map bs_id (booking_seats d @ rows))"
      "distinct (map (\<lambda>r. (bs_session_id r, bs_seat r)) (booking_seats d))
         \<longrightarrow> distinct (map (\<lambda>r. (bs_session_id r, bs_seat r)) (booking_seats d @ rows))"
      "out = Sent \<lparr>status = 200,
                   body = Success \<lparr>booking_id = new_booking_id d, sum_name = name b,
                     sum_email = email b, sum_phone_number = phone_number b,
                     sum_session_id = session_id b,
                     sum_seats = select_booked_seats
                        ((with_booking d b)\<lparr>booking_seats := booking_seats d @ rows,
                                             booking_seats_seq := q\<rparr>) (new_booking_id d)\<rparr>\<rparr>"
      "st = \<lparr>committed = (with_booking d b)\<lparr>booking_seats := booking_seats d @ rows,
                                               booking_seats_seq := q\<rparr>, tx = None\<rparr>"
      "evs = [Ran OPEN_DB, Ran BEGIN_TRANSACTION, Ran INSERT_BOOKING]
               @ map (\<lambda>s. Ran (INSERT_SEAT s)) (seats b)
               @ [Ran COMMIT, Ran SELECT_BOOKING, Ran SELECT_BOOKED_SEATS, Responded 200]"
proof (cases "F OPEN_DB")
  case (Some err)
  with run open_failed show ?thesis by (simp add: post_book_open_failed)
next
  case None
  note op = None
  show ?thesis
  proof (cases "BookingSchema e rb")
    case (Inl issues)
    with run op invalid show ?thesis by (simp add: post_book_rejects)
  next
    case (Inr b)
    note valid = Inr
    show ?thesis
    proof (cases "F BEGIN_TRANSACTION")
      case (Some err)
      from book_try_begin_failed [where F = F, OF valid Some] run op
      have "out = Sent (handleDbError err ''Failed to book seats'')"
        "st = \<lparr>committed = d, tx = None\<rparr>"
        "evs = [Ran OPEN_DB, Threw BEGIN_TRANSACTION, Responded 500]"
        by (simp_all add: post_book_unrolled)
      with begin_failed [OF op valid Some] show ?thesis by blast
    next
      case None
      note bg = None
      show ?thesis
      proof (cases "F INSERT_BOOKING")
        case (Some err)
        note tr = book_try_booking_failed [where F = F, OF valid bg Some, of d]
        have ab: "post_book e F d rb =
            (case F ROLLBACK of
               Some e' \<Rightarrow> (Rejected e', \<lparr>committed = d, tx = Some d\<rparr>,
                           Ran OPEN_DB # [Ran BEGIN_TRANSACTION, Threw INSERT_BOOKING] @ [Threw ROLLBACK])
             | None \<Rightarrow> (Sent (handleDbError err ''Failed to book seats''),
                        \<lparr>committed = d, tx = Some d\<rparr>\<lparr>tx := None\<rparr>,
                        Ran OPEN_DB # [Ran BEGIN_TRANSACTION, Threw INSERT_BOOKING]
                          @ [Ran ROLLBACK, Responded 500]))"
          by (rule post_book_aborted [where F = F, OF op tr]) simp
        show ?thesis
        proof (cases "F ROLLBACK")
          case None
          with ab run have "out = Sent (handleDbError err ''Failed to book seats'')"
            "st = \<lparr>committed = d, tx = None\<rparr>"
            "evs = [Ran OPEN_DB, Ran BEGIN_TRANSACTION] @ [Threw INSERT_BOOKING, Ran ROLLBACK, Responded 500]"
            by simp_all
          with aborted [OF op valid bg None, of INSERT_BOOKING err "[Ran OPEN_DB, Ran BEGIN_TRANSACTION]"]
            Some show ?thesis by simp
        next
          case (Some e')
          with ab run have "out = Rejected e'"
            "st = \<lparr>committed = d, tx = Some d\<rparr>"
            "evs = [Ran OPEN_DB, Ran BEGIN_TRANSACTION] @ [Threw INSERT_BOOKING, Threw ROLLBACK]"
            by simp_all
          with rollback_failed [OF op valid bg Some, of INSERT_BOOKING "[Ran OPEN_DB, Ran BEGIN_TRANSACTION]"]
            \<open>F INSERT_BOOKING = Some err\<close>
          show ?thesis by simp
        qed
      next
        case None
        note ib = None
        obtain r st3 sevs where seats_run:
          "insert_seats F openDb (new_booking_id d) (session_id b) (seats b)
             \<lparr>committed = d, tx = Some (with_booking d b)\<rparr> = (r, st3, sevs)"
          by (cases "insert_seats F openDb (new_booking_id d) (session_id b) (seats b)
             \<lparr>committed = d, tx = Some (with_booking d b)\<rparr>") auto
        have tx0: "tx \<lparr>committed = d, tx = Some (with_booking d b)\<rparr> = Some (with_booking d b)"
          by simp
        from insert_seats_frame [where F = F, OF seats_run tx0]
        obtain rows q where fr:
          "st3 = \<lparr>committed = d, tx = Some (with_booking d b)\<rparr>\<lparr>tx := Some ((with_booking d b)
              \<lparr>booking_seats := booking_seats (with_booking d b) @ rows, booking_seats_seq := q\<rparr>)\<rparr>
           \<and> (\<forall>x \<in> set rows. bs_booking_id x = new_booking_id d \<and> bs_session_id x = session_id b)
           \<and> set (map bs_seat rows) \<subseteq> set (seats b)
           \<and> (r = None \<longrightarrow> map bs_seat rows = seats b)
           \<and> (distinct (map bs_id (booking_seats (with_booking d b)))
                \<longrightarrow> distinct (map bs_id (booking_seats (with_booking d b) @ rows)))
           \<and> (distinct (map (\<lambda>r. (bs_session_id r, bs_seat r)) (booking_seats (with_booking d b)))
                \<longrightarrow> distinct (map (\<lambda>r. (bs_session_id r, bs_seat r)) (booking_seats (with_booking d b) @ rows)))"
          by (elim exE) (rule that)
        from fr have
          st3: "st3 = \<lparr>committed = d, tx = Some ((with_booking d b)
                  \<lparr>booking_seats := booking_seats (with_booking d b) @ rows, booking_seats_seq := q\<rparr>)\<rparr>"
          by simp
        from fr have
          own: "\<forall>x \<in> set rows. bs_booking_id x = new_booking_id d \<and> bs_session_id x = session_id b"
          by (elim conjE)
        from fr have all: "r = None \<longrightarrow> map bs_seat rows = seats b"
          by (elim conjE)
        from fr have
          ids: "distinct (map bs_id (booking_seats (with_booking d b)))
              \<longrightarrow> distinct (map bs_id (booking_seats (with_booking d b) @ rows))"
          by (elim conjE)
        from fr have
          keys: "distinct (map (\<lambda>r. (bs_session_id r, bs_seat r)) (booking_seats (with_booking d b)))
              \<longrightarrow> distinct (map (\<lambda>r. (bs_session_id r, bs_seat r)) (booking_seats (with_booking d b) @ rows))"
          by (elim conjE)
        have bs: "booking_seats (with_booking d b) = booking_seats d"
          by (simp add: with_booking_def)
        note tr = insert_seats_trace [where F = F, OF seats_run tx0]
        let ?head = "[Ran OPEN_DB, Ran BEGIN_TRANSACTION, Ran INSERT_BOOKING]"
        show ?thesis
        proof (cases r)
          case (Some err)
          with tr obtain pre seat post where
            split: "seats b = pre @ seat # post"
            and sevs: "sevs = map (\<lambda>s. Ran (INSERT_SEAT s)) pre @ [Threw (INSERT_SEAT seat)]"
            and why: "case F (INSERT_SEAT seat) of Some e' \<Rightarrow> err = e'
                | None \<Rightarrow> err = unique_seat_failed
                    \<and> (seat_taken (with_booking d b) (session_id b) seat \<or> seat \<in> set pre)"
            by auto
          let ?pre = "?head @ map (\<lambda>s. Ran (INSERT_SEAT s)) pre"
          from why split have cause: "F (INSERT_SEAT seat) = Some err \<or>
             (F (INSERT_SEAT seat) = None \<and> err = unique_seat_failed
              \<and> (\<exists>x. INSERT_SEAT seat = INSERT_SEAT x
                    \<and> (seat_taken d (session_id b) x
                         \<or> (Ran (INSERT_SEAT seat) \<in> set ?pre \<and> \<not> distinct (seats b)))))"
            by (auto split: option.splits)
          then have cause': "F (INSERT_SEAT seat) \<noteq> None \<or>
             (\<exists>x. INSERT_SEAT seat = INSERT_SEAT x
                \<and> (seat_taken d (session_id b) x \<or> \<not> distinct (seats b)))"
            by auto
          from split have member: "\<forall>x. INSERT_SEAT seat = INSERT_SEAT x \<longrightarrow> x \<in> set (seats b)"
            by simp
          have clean: "\<forall>x. Threw x \<notin> set ?pre" "\<forall>n. Responded n \<notin> set ?pre" "Ran COMMIT \<notin> set ?pre"
            by auto
          note t3 = book_try_seat_failed [where F = F, OF valid bg ib seats_run [unfolded Some]]
          have ab: "post_book e F d rb =
            (case F ROLLBACK of
               Some e' \<Rightarrow> (Rejected e', st3, Ran OPEN_DB # ([Ran BEGIN_TRANSACTION, Ran INSERT_BOOKING] @ sevs) @ [Threw ROLLBACK])
             | None \<Rightarrow> (Sent (handleDbError err ''Failed to book seats''), st3\<lparr>tx := None\<rparr>,
                        Ran OPEN_DB # ([Ran BEGIN_TRANSACTION, Ran INSERT_BOOKING] @ sevs)
                          @ [Ran ROLLBACK, Responded 500]))"
            by (rule post_book_aborted [where F = F, OF op t3]) (simp add: st3)
          show ?thesis
          proof (cases "F ROLLBACK")
            case None
            with ab run st3 sevs have "out = Sent (handleDbError err ''Failed to book seats'')"
              "st = \<lparr>committed = d, tx = None\<rparr>"
              "evs = ?pre @ [Threw (INSERT_SEAT seat), Ran ROLLBACK, Responded 500]"
              by simp_all
            with aborted [OF op valid bg None _ cause member clean] show ?thesis by blast
          next
            case (Some e')
            with ab run st3 sevs have "out = Rejected e'"
              "st = \<lparr>committed = d, tx = Some ((with_booking d b)
                  \<lparr>booking_seats := booking_seats (with_booking d b) @ rows, booking_seats_seq := q\<rparr>)\<rparr>"
              "evs = ?pre @ [Threw (INSERT_SEAT seat), Threw ROLLBACK]"
              by simp_all
            with rollback_failed [OF op valid bg Some _ cause' member clean] show ?thesis by blast
          qed
        next
          case None
          with tr have sevs: "sevs = map (\<lambda>s. Ran (INSERT_SEAT s)) (seats b)"
            and dist: "distinct (seats b)"
            and free: "\<forall>x \<in> set (seats b). \<not> seat_taken d (session_id b) x \<and> F (INSERT_SEAT x) = None"
            by simp_all
          from all None have seats_rows: "map bs_seat rows = seats b" by simp
          from ids have ids': "distinct (map bs_id (booking_seats d)) \<longrightarrow> distinct (map bs_id (booking_seats d @ rows))"
            by (simp add: bs)
          from keys have keys': "distinct (map (\<lambda>r. (bs_session_id r, bs_seat r)) (booking_seats d))
              \<longrightarrow> distinct (map (\<lambda>r. (bs_session_id r, bs_seat r)) (booking_seats d @ rows))"
            by (simp add: bs)
          let ?t3 = "(with_booking d b)\<lparr>booking_seats := booking_seats d @ rows, booking_seats_seq := q\<rparr>"
          from st3 have st3': "st3 = \<lparr>committed = d, tx = Some ?t3\<rparr>" by (simp add: bs)
          let ?pre = "?head @ map (\<lambda>s. Ran (INSERT_SEAT s)) (seats b)"
          have clean: "\<forall>x. Threw x \<notin> set ?pre" "\<forall>n. Responded n \<notin> set ?pre" "Ran COMMIT \<notin> set ?pre"
            by auto
          show ?thesis
          proof (cases "F COMMIT")
            case (Some err)
            note t4 = book_try_commit_failed [where F = F, OF valid bg ib seats_run [unfolded None] Some]
            have ab: "post_book e F d rb =
              (case F ROLLBACK of
                 Some e' \<Rightarrow> (Rejected e', st3, Ran OPEN_DB # ([Ran BEGIN_TRANSACTION, Ran INSERT_BOOKING] @ sevs @ [Threw COMMIT]) @ [Threw ROLLBACK])
               | None \<Rightarrow> (Sent (handleDbError err ''Failed to book seats''), st3\<lparr>tx := None\<rparr>,
                          Ran OPEN_DB # ([Ran BEGIN_TRANSACTION, Ran INSERT_BOOKING] @ sevs @ [Threw COMMIT])
                            @ [Ran ROLLBACK, Responded 500]))"
              by (rule post_book_aborted [where F = F, OF op t4]) (simp add: st3)
            show ?thesis
            proof (cases "F ROLLBACK")
              case None
              with ab run st3 sevs have "out = Sent (handleDbError err ''Failed to book seats'')"
                "st = \<lparr>committed = d, tx = None\<rparr>"
                "evs = ?pre @ [Threw COMMIT, Ran ROLLBACK, Responded 500]"
                by simp_all
              with aborted [OF op valid bg None _ _ _ clean, of COMMIT err] \<open>F COMMIT = Some err\<close>
              show ?thesis by simp
            next
              case (Some e')
              with ab run st3 sevs have "out = Rejected e'"
                "st = \<lparr>committed = d, tx = Some ((with_booking d b)
                    \<lparr>booking_seats := booking_seats (with_booking d b) @ rows, booking_seats_seq := q\<rparr>)\<rparr>"
                "evs = ?pre @ [Threw COMMIT, Threw ROLLBACK]"
                by simp_all
              with rollback_failed [OF op valid bg Some _ _ _ clean, of COMMIT] \<open>F COMMIT = Some err\<close>
              show ?thesis by simp
            qed
          next
            case None
            note cm = None
            note t5 = book_try_committed [where F = F, OF valid bg ib seats_run [unfolded \<open>r = None\<close> st3'] cm]
            show ?thesis
            proof (cases "F SELECT_BOOKING")
              case (Some err)
              with t5 have "book_try e F openDb \<lparr>committed = d, tx = None\<rparr> rb =
                  (Inl (Thrown err), False, \<lparr>committed = ?t3, tx = None\<rparr>,
                   [Ran BEGIN_TRANSACTION, Ran INSERT_BOOKING] @ sevs @ [Ran COMMIT, Threw SELECT_BOOKING])"
                by simp
              from post_book_unrolled [where F = F, OF op this] run sevs
              have "out = Sent (handleDbError err ''Failed to book seats'')"
                "st = \<lparr>committed = ?t3, tx = None\<rparr>"
                "evs = (?pre @ [Ran COMMIT]) @ [Threw SELECT_BOOKING, Responded 500]"
                by simp_all
              moreover have "Ran COMMIT \<in> set (?pre @ [Ran COMMIT])" "Ran ROLLBACK \<notin> set (?pre @ [Ran COMMIT])"
                "\<forall>x. Threw x \<notin> set (?pre @ [Ran COMMIT])"
                by auto
              ultimately show ?thesis
                using read_failed [OF op valid bg ib cm _ _ _ dist free seats_rows own ids' keys',
                    of SELECT_BOOKING err "?pre @ [Ran COMMIT]" q] Some
                by simp
            next
              case None
              note sb = None
              show ?thesis
              proof (cases "F SELECT_BOOKED_SEATS")
                case (Some err)
                with t5 sb have "book_try e F openDb \<lparr>committed = d, tx = None\<rparr> rb =
                    (Inl (Thrown err), False, \<lparr>committed = ?t3, tx = None\<rparr>,
                     [Ran BEGIN_TRANSACTION, Ran INSERT_BOOKING] @ sevs
                       @ [Ran COMMIT, Ran SELECT_BOOKING, Threw SELECT_BOOKED_SEATS])"
                  by simp
                from post_book_unrolled [where F = F, OF op this] run sevs
                have "out = Sent (handleDbError err ''Failed to book seats'')"
                  "st = \<lparr>committed = ?t3, tx = None\<rparr>"
                  "evs = (?pre @ [Ran COMMIT, Ran SELECT_BOOKING]) @ [Threw SELECT_BOOKED_SEATS, Responded 500]"
                  by simp_all
                moreover have "Ran COMMIT \<in> set (?pre @ [Ran COMMIT, Ran SELECT_BOOKING])"
                  "Ran ROLLBACK \<notin> set (?pre @ [Ran COMMIT, Ran SELECT_BOOKING])"
                  "\<forall>x. Threw x \<notin> set (?pre @ [Ran COMMIT, Ran SELECT_BOOKING])"
                  by auto
                ultimately show ?thesis
                  using read_failed [OF op valid bg ib cm _ _ _ dist free seats_rows own ids' keys',
                      of SELECT_BOOKED_SEATS err "?pre @ [Ran COMMIT, Ran SELECT_BOOKING]" q] Some sb
                  by simp
              next
                case None
                with t5 sb have "book_try e F openDb \<lparr>committed = d, tx = None\<rparr> rb =
                    (Inr \<lparr>status = 200,
                          body = Success \<lparr>booking_id = new_booking_id d, sum_name = name b,
                             sum_email = email b, sum_phone_number = phone_number b,
                             sum_session_id = session_id b,
                             sum_seats = select_booked_seats ?t3 (new_booking_id d)\<rparr>\<rparr>,
                     False, \<lparr>committed = ?t3, tx = None\<rparr>,
                     [Ran BEGIN_TRANSACTION, Ran INSERT_BOOKING] @ sevs
                       @ [Ran COMMIT, Ran SELECT_BOOKING, Ran SELECT_BOOKED_SEATS])"
                  by (simp add: select_new_booking booking_row_of_def)
                from post_book_sent [where F = F, OF op this] run sevs
                have "out = Sent \<lparr>status = 200,
                          body = Success \<lparr>booking_id = new_booking_id d, sum_name = name b,
                             sum_email = email b, sum_phone_number = phone_number b,
                             sum_session_id = session_id b,
                             sum_seats = select_booked_seats ?t3 (new_booking_id d)\<rparr>\<rparr>"
                  "st = \<lparr>committed = ?t3, tx = None\<rparr>"
                  "evs = ?head @ map (\<lambda>s. Ran (INSERT_SEAT s)) (seats b)
                     @ [Ran COMMIT, Ran SELECT_BOOKING, Ran SELECT_BOOKED_SEATS, Responded 200]"
                  by simp_all
                with success [OF op valid bg ib cm sb None dist free seats_rows own ids' keys', of q]
                show ?thesis by blast
              qed
            qed
          qed
        qed
      qed
    qed
  qed
qed

lemma post_book_commits:
  assumes valid: "BookingSchema e rb = Inr b"
    and dist: "distinct (seats b)"
    and free: "\<forall>x \<in> set (seats b). \<not> seat_taken d (session_id b) x \<and> F (INSERT_SEAT x) = None"
    and nofault: "F OPEN_DB = None" "F BEGIN_TRANSACTION = None" "F INSERT_BOOKING = None"
      "F COMMIT = None"
    and run: "post_book e F d rb = (out, st, evs)"
  shows "\<exists>rows q.
      st = \<lparr>committed = (with_booking d b)\<lparr>booking_seats := booking_seats d @ rows,
                                             booking_seats_seq := q\<rparr>, tx = None\<rparr>
    \<and> map bs_seat rows = seats b
    \<and> (\<forall>x \<in> set rows. bs_booking_id x = new_booking_id d \<and> bs_session_id x = session_id b)
    \<and> Ran COMMIT \<in> set evs \<and> Ran ROLLBACK \<notin> set evs
    \<and> (case F SELECT_BOOKING of
         Some err \<Rightarrow> out = Sent (handleDbError err ''Failed to book seats'')
       | None \<Rightarrow>
        (case F SELECT_BOOKED_SEATS of
           Some err \<Rightarrow> out = Sent (handleDbError err ''Failed to book seats'')
         | None \<Rightarrow>
             out = Sent \<lparr>status = 200,
                   body = Success \<lparr>booking_id = new_booking_id d, sum_name = name b,
                     sum_email = email b, sum_phone_number = phone_number b,
                     sum_session_id = session_id b,
                     sum_seats = select_booked_seats
                        ((with_booking d b)\<lparr>booking_seats := booking_seats d @ rows,
                                             booking_seats_seq := q\<rparr>) (new_booking_id d)\<rparr>\<rparr>))"
  using run
proof (cases rule: post_book_cases)
  case (open_failed err)
  with nofault show ?thesis by simp
next
  case (invalid issues)
  with valid show ?thesis by simp
next
  case (begin_failed b' err)
  with nofault show ?thesis by simp
next
  case (aborted b' err s pre)
  with valid have "b' = b" by simp
  with aborted nofault free dist have False by auto
  then show ?thesis ..
next
  case (rollback_failed b' err s pre t)
  with valid have "b' = b" by simp
  with rollback_failed nofault free dist have False by auto
  then show ?thesis ..
next
  case (read_failed b' err s pre rows q)
  with valid have b': "b' = b" by simp
  from read_failed have "Ran COMMIT \<in> set evs" "Ran ROLLBACK \<notin> set evs" by auto
  moreover from read_failed have "case F SELECT_BOOKING of
         Some err \<Rightarrow> out = Sent (handleDbError err ''Failed to book seats'')
       | None \<Rightarrow>
        (case F SELECT_BOOKED_SEATS of
           Some err \<Rightarrow> out = Sent (handleDbError err ''Failed to book seats'')
         | None \<Rightarrow>
             out = Sent \<lparr>status = 200,
                   body = Success \<lparr>booking_id = new_booking_id d, sum_name = name b,
                     sum_email = email b, sum_phone_number = phone_number b,
                     sum_session_id = session_id b,
                     sum_seats = select_booked_seats
                        ((with_booking d b)\<lparr>booking_seats := booking_seats d @ rows,
                                             booking_seats_seq := q\<rparr>) (new_booking_id d)\<rparr>\<rparr>)"
    using b' by (auto split: option.splits)
  ultimately show ?thesis
    using read_failed b' by (intro exI [of _ rows] exI [of _ q]) simp
next
  case (success b' rows q)
  with valid have b': "b' = b" by simp
  from success have "Ran COMMIT \<in> set evs" "Ran ROLLBACK \<notin> set evs" by auto
  then show ?thesis
    using success b' by (intro exI [of _ rows] exI [of _ q]) simp
qed


lemma seats_of_session_after:
  assumes own: "\<forall>x \<in> set rows. bs_booking_id x = new_booking_id d \<and> bs_session_id x = session_id b"
  shows "select_seats ((with_booking d b)\<lparr>booking_seats := booking_seats d @ rows,
            booking_seats_seq := q\<rparr>) (session_id b) = select_seats d (session_id b) @ map bs_seat rows"
proof -
  from own have "filter (\<lambda>r. bs_session_id r = session_id b) rows = rows"
    by (simp add: filter_id_conv)
  then show ?thesis by (simp add: select_seats_def)
qed

subsection \<open>The invariant of the booking tables\<close>

text \<open>
  Every run of the handler, whatever the payload and whatever fails, leaves a committed
  database that satisfies \<open>db_inv\<close> if the one it found did, and in which every booking
  has a seat claim if that held before. The runs are taken one after the other: requests
  interleaved on separate connections (claim C1) are beyond this model, which has one
  connection and no locks.
\<close>

lemma db_inv_after_booking:
  assumes inv: "db_inv d"
    and own: "\<forall>x \<in> set rows. bs_booking_id x = new_booking_id d \<and> bs_session_id x = session_id b"
    and ids: "distinct (map bs_id (booking_seats d)) \<longrightarrow> distinct (map bs_id (booking_seats d @ rows))"
    and keys: "distinct (map (\<lambda>r. (bs_session_id r, bs_seat r)) (booking_seats d))
         \<longrightarrow> distinct (map (\<lambda>r. (bs_session_id r, bs_seat r)) (booking_seats d @ rows))"
  shows "db_inv ((with_booking d b)\<lparr>booking_seats := booking_seats d @ rows, booking_seats_seq := q\<rparr>)"
proof -
  let ?d' = "(with_booking d b)\<lparr>booking_seats := booking_seats d @ rows, booking_seats_seq := q\<rparr>"
  have bk: "bookings ?d' = bookings d @ [booking_row_of (new_booking_id d) b]"
    and bs: "booking_seats ?d' = booking_seats d @ rows"
    by (simp_all add: with_booking_def)
  have fresh: "new_booking_id d \<notin> set (map bk_id (bookings d))"
    unfolding new_booking_id_def by (rule next_rowid_fresh)
  from inv fresh have "distinct (map bk_id (bookings ?d'))"
    by (simp add: bk db_inv_def booking_row_of_def)
  moreover from inv ids have "distinct (map bs_id (booking_seats ?d'))"
    by (simp add: bs db_inv_def)
  moreover from inv keys have "distinct (map (\<lambda>r. (bs_session_id r, bs_seat r)) (booking_seats ?d'))"
    by (simp only: bs db_inv_def)
  moreover have "\<forall>r \<in> set (booking_seats ?d').
        \<exists>k \<in> set (bookings ?d'). bk_id k = bs_booking_id r \<and> bk_session_id k = bs_session_id r"
  proof
    fix r assume "r \<in> set (booking_seats ?d')"
    then consider "r \<in> set (booking_seats d)" | "r \<in> set rows" by (auto simp: bs)
    then show "\<exists>k \<in> set (bookings ?d'). bk_id k = bs_booking_id r \<and> bk_session_id k = bs_session_id r"
    proof cases
      case 1
      with inv obtain k where "k \<in> set (bookings d)" "bk_id k = bs_booking_id r"
        "bk_session_id k = bs_session_id r"
        unfolding db_inv_def by blast
      then show ?thesis by (auto simp: bk)
    next
      case 2
      with own have "bs_booking_id r = new_booking_id d" "bs_session_id r = session_id b" by auto
      then show ?thesis by (auto simp: bk booking_row_of_def)
    qed
  qed
  ultimately show ?thesis unfolding db_inv_def by blast
qed

lemma post_book_preserves_inv:
  assumes inv: "db_inv d" and run: "post_book e F d rb = (out, st, evs)"
  shows "db_inv (committed st)"
  using run
proof (cases rule: post_book_cases)
  case (read_failed b err s pre rows q)
  then have "committed st =
      (with_booking d b)\<lparr>booking_seats := booking_seats d @ rows, booking_seats_seq := q\<rparr>"
    by simp
  moreover from read_failed have "db_inv ((with_booking d b)\<lparr>booking_seats := booking_seats d @ rows, booking_seats_seq := q\<rparr>)"
    by (intro db_inv_after_booking [OF inv]) simp_all
  ultimately show ?thesis by simp
next
  case (success b rows q)
  then have "committed st =
      (with_booking d b)\<lparr>booking_seats := booking_seats d @ rows, booking_seats_seq := q\<rparr>"
    by simp
  moreover from success have "db_inv ((with_booking d b)\<lparr>booking_seats := booking_seats d @ rows, booking_seats_seq := q\<rparr>)"
    by (intro db_inv_after_booking [OF inv]) simp_all
  ultimately show ?thesis by simp
qed (use inv in simp_all)

lemma seated_after_booking:
  assumes seated: "every_booking_seated d"
    and valid: "BookingSchema e rb = Inr b"
    and rows: "map bs_seat rows = seats b"
    and own: "\<forall>x \<in> set rows. bs_booking_id x = new_booking_id d \<and> bs_session_id x = session_id b"
  shows "every_booking_seated ((with_booking d b)\<lparr>booking_seats := booking_seats d @ rows, booking_seats_seq := q\<rparr>)"
proof -
  from valid have "seats b \<noteq> []" by (auto simp: BookingSchema_Inr_iff)
  with rows obtain r where r: "r \<in> set rows" by (cases rows) auto
  with own have "bs_booking_id r = new_booking_id d" by simp
  with r seated show ?thesis
    unfolding every_booking_seated_def
    by (auto simp: with_booking_def booking_row_of_def)
qed

lemma post_book_preserves_seated:
  assumes seated: "every_booking_seated d" and run: "post_book e F d rb = (out, st, evs)"
  shows "every_booking_seated (committed st)"
  using run
proof (cases rule: post_book_cases)
  case (read_failed b err s pre rows q)
  then show ?thesis using seated_after_booking [OF seated, of e rb b rows q] by simp
next
  case (success b rows q)
  then show ?thesis using seated_after_booking [OF seated, of e rb b rows q] by simp
qed (use seated in simp_all)

lemma initial_seated: "every_booking_seated initializeDb"
  by (simp add: every_booking_seated_def initializeDb_def)

section \<open>The model run on concrete requests\<close>


lemma example_request:
  "BookingSchema example_email (request_with 1 ''12345678'' [''A1'', ''A2'']) =
     Inr \<lparr>session_id = 1, name = ''A'', email = ''a@x.com'', phone_number = ''12345678'',
          seats = [''A1'', ''A2'']\<rparr>"
  by code_simp




lemma repeated_seat_request:
  "BookingSchema example_email (request_with 1 ''12345678'' [''A1'', ''A1'']) =
     Inr \<lparr>session_id = 1, name = ''A'', email = ''a@x.com'', phone_number = ''12345678'',
          seats = [''A1'', ''A1'']\<rparr>"
  by code_simp





lemma commit_fault_run:
  "post_book example_email (no_faults(COMMIT := Some busy)) initializeDb
      (request_with 1 ''12345678'' [''A1'']) =
     (Sent (handleDbError busy ''Failed to book seats''), \<lparr>committed = initializeDb, tx = None\<rparr>,
      [Ran OPEN_DB, Ran BEGIN_TRANSACTION, Ran INSERT_BOOKING, Ran (INSERT_SEAT ''A1''),
       Threw COMMIT, Ran ROLLBACK, Responded 500])"
  by code_simp

lemma read_fault_run:
  "post_book example_email (no_faults(SELECT_BOOKING := Some busy)) initializeDb
      (request_with 1 ''12345678'' [''A1'', ''A2'']) =
     (Sent \<lparr>status = 500,
            body = Failure ''Failed to book seats'' (Text ''SQLITE_BUSY: database is locked'')\<rparr>,
      \<lparr>committed =
         \<lparr>movies = [], sessions = [],
          bookings = [\<lparr>bk_id = 1, bk_session_id = 1, bk_name = ''A'', bk_email = ''a@x.com'',
                       bk_phone_number = ''12345678''\<rparr>],
          booking_seats = [\<lparr>bs_id = 1, bs_booking_id = 1, bs_session_id = 1, bs_seat = ''A1''\<rparr>,
                           \<lparr>bs_id = 2, bs_booking_id = 1, bs_session_id = 1, bs_seat = ''A2''\<rparr>],
          bookings_seq = 1, booking_seats_seq = 2\<rparr>,
       tx = None\<rparr>,
      [Ran OPEN_DB, Ran BEGIN_TRANSACTION, Ran INSERT_BOOKING, Ran (INSERT_SEAT ''A1''),
       Ran (INSERT_SEAT ''A2''), Ran COMMIT, Threw SELECT_BOOKING, Responded 500])"
  by code_simp

lemma repeated_seat_run:
  "post_book example_email no_faults initializeDb (request_with 1 ''12345678'' [''A1'', ''A1'']) =
     (Sent (handleDbError unique_seat_failed ''Failed to book seats''),
      \<lparr>committed = initializeDb, tx = None\<rparr>,
      [Ran OPEN_DB, Ran BEGIN_TRANSACTION, Ran INSERT_BOOKING, Ran (INSERT_SEAT ''A1''),
       Threw (INSERT_SEAT ''A1''), Ran ROLLBACK, Responded 500])"
  by code_simp


lemma store_failure_run:
  "post_book example_email (no_faults(BEGIN_TRANSACTION := Some busy)) booked_db
       (request_with 1 ''12345678'' [''A3'']) =
     (Sent \<lparr>status = 500,
            body = Failure ''Failed to book seats'' (Text ''SQLITE_BUSY: database is locked'')\<rparr>,
      \<lparr>committed = booked_db, tx = None\<rparr>,
      [Ran OPEN_DB, Threw BEGIN_TRANSACTION, Responded 500])"
  by code_simp

text \<open>
  The older handler of \<^verbatim>\<open>src/server.ts\<close> on a request without seats: the schema accepts
  it, and a booking without a seat claim is committed and answered with
  \<^verbatim>\<open>{success: true}\<close>.
\<close>

lemma older_schema_accepts_no_seats:
  "BookingSchema_ts example_email (request_with 1 ''123'' []) =
     Inr \<lparr>session_id = 1, name = ''A'', email = ''a@x.com'', phone_number = ''123'', seats = []\<rparr>"
  by code_simp

lemma older_handler_books_no_seats:
  "post_book_ts example_email no_faults initializeDb (request_with 1 ''12345678'' []) =
     (Sent \<lparr>status = 200, body = SuccessOnly\<rparr>,
      \<lparr>committed =
         \<lparr>movies = [], sessions = [],
          bookings = [\<lparr>bk_id = 1, bk_session_id = 1, bk_name = ''A'', bk_email = ''a@x.com'',
                       bk_phone_number = ''12345678''\<rparr>],
          booking_seats = [], bookings_seq = 1, booking_seats_seq = 0\<rparr>,
       tx = None\<rparr>,
      [Ran OPEN_DB, Ran BEGIN_TRANSACTION, Ran INSERT_BOOKING, Ran COMMIT, Responded 200])"
  by code_simp

lemma older_handler_rolls_back:
  "post_book_ts example_email (no_faults(COMMIT := Some busy)) initializeDb
      (request_with 1 ''12345678'' [''A1'']) =
     (Sent (handleDbError busy ''Failed to book seats''), \<lparr>committed = initializeDb, tx = None\<rparr>,
      [Ran OPEN_DB, Ran BEGIN_TRANSACTION, Ran INSERT_BOOKING, Ran (INSERT_SEAT ''A1''),
       Threw COMMIT, Ran ROLLBACK, Responded 500])"
  by code_simp

section \<open>The validator's contract\<close>






section \<open>Failed bookings\<close>

text \<open>
  Claim C2. An error of a request after its transaction was opened, that is a failure of
  the insert of the booking, of the insert of a seat or of the commit, whatever its
  reason: the next call of the handler is the rollback, no response precedes it, and the
  committed database is the one the request found (no booking row and no seat claim of
  the request persists). The request is then answered with status 500; if the rollback
  itself throws, the error escapes the handler and nothing is sent.
\<close>

theorem failure_in_transaction_rolls_back:
  assumes run: "post_book is_email F d reqBody = (out, st, evs)"
    and threw: "Threw s \<in> set evs"
    and s: "s = INSERT_BOOKING \<or> s = COMMIT \<or> (\<exists>seat. s = INSERT_SEAT seat)"
  shows "committed st = d \<and>
    ((\<exists>pre err. evs = pre @ [Threw s, Ran ROLLBACK, Responded 500]
         \<and> (\<forall>n. Responded n \<notin> set pre)
         \<and> out = Sent (handleDbError err ''Failed to book seats'') \<and> tx st = None)
     \<or> (\<exists>pre err. evs = pre @ [Threw s, Threw ROLLBACK]
         \<and> (\<forall>n. Responded n \<notin> set pre) \<and> out = Rejected err))"
  using run
proof (cases rule: post_book_cases)
  case (open_failed err)
  with threw s show ?thesis by auto
next
  case (invalid issues)
  with threw show ?thesis by simp
next
  case (begin_failed b err)
  with threw s show ?thesis by auto
next
  case (aborted b err s' pre)
  from aborted have "evs = pre @ [Threw s', Ran ROLLBACK, Responded 500]" "\<forall>x. Threw x \<notin> set pre"
    by simp_all
  with threw have "s = s'" by auto
  with aborted show ?thesis by auto
next
  case (rollback_failed b err s' pre t)
  from rollback_failed have "evs = pre @ [Threw s', Threw ROLLBACK]" "\<forall>x. Threw x \<notin> set pre"
    by simp_all
  with threw s have "s = s'" by auto
  with rollback_failed show ?thesis by auto
next
  case (read_failed b err s' pre rows q)
  from read_failed have "evs = pre @ [Threw s', Responded 500]" "\<forall>x. Threw x \<notin> set pre"
    and s': "s' = SELECT_BOOKING \<or> s' = SELECT_BOOKED_SEATS"
    by simp_all
  with threw have "s = s'" by auto
  with s' s show ?thesis by auto
next
  case (success b rows q)
  with threw show ?thesis by auto
qed

text \<open>
  Claim C2 at a request whose commit fails because the database is locked.
\<close>

theorem failure_in_transaction_rolls_back_witness:
  "post_book example_email (no_faults(COMMIT := Some busy)) initializeDb
      (request_with 1 ''12345678'' [''A1'']) =
     (Sent (handleDbError busy ''Failed to book seats''), \<lparr>committed = initializeDb, tx = None\<rparr>,
      [Ran OPEN_DB, Ran BEGIN_TRANSACTION, Ran INSERT_BOOKING, Ran (INSERT_SEAT ''A1''),
       Threw COMMIT, Ran ROLLBACK, Responded 500])
   \<and> Threw COMMIT \<in> set [Ran OPEN_DB, Ran BEGIN_TRANSACTION, Ran INSERT_BOOKING, Ran (INSERT_SEAT ''A1''),
       Threw COMMIT, Ran ROLLBACK, Responded 500]
   \<and> committed \<lparr>committed = initializeDb, tx = None\<rparr> = initializeDb"
  using failure_in_transaction_rolls_back [OF commit_fault_run, of COMMIT] commit_fault_run
  by simp

text \<open>
  Claim C10. A validated request that names a seat twice never succeeds and leaves the
  committed database unchanged, whatever the store does: a response, if one is sent, has
  status 500. When the store itself does not fail, the insert that throws is that of a
  seat of the request, the error is the violation of \<^verbatim>\<open>UNIQUE(session_id, seat)\<close>, the
  rollback follows, and when none of the seats was claimed before, the same seat was
  inserted earlier by this very request.
\<close>

theorem repeated_seat_fails:
  assumes valid: "BookingSchema is_email reqBody = Inr b"
    and rep: "\<not> distinct (seats b)"
    and run: "post_book is_email F d reqBody = (out, st, evs)"
  shows "committed st = d \<and> (\<forall>res. out = Sent res \<longrightarrow> status res = 500)
    \<and> (F = no_faults \<longrightarrow>
         (\<exists>seat pre. seat \<in> set (seats b)
            \<and> evs = pre @ [Threw (INSERT_SEAT seat), Ran ROLLBACK, Responded 500]
            \<and> out = Sent (handleDbError unique_seat_failed ''Failed to book seats'')
            \<and> st = \<lparr>committed = d, tx = None\<rparr>
            \<and> ((\<forall>x \<in> set (seats b). \<not> seat_taken d (session_id b) x)
                 \<longrightarrow> Ran (INSERT_SEAT seat) \<in> set pre)))"
  using run
proof (cases rule: post_book_cases)
  case (open_failed err)
  then show ?thesis by (auto simp: no_faults_def)
next
  case (invalid issues)
  with valid show ?thesis by simp
next
  case (begin_failed b' err)
  then show ?thesis by (auto simp: no_faults_def handleDbError_def)
next
  case (aborted b' err s pre)
  with valid have b': "b' = b" by simp
  have general: "committed st = d \<and> (\<forall>res. out = Sent res \<longrightarrow> status res = 500)"
    using aborted by (simp add: handleDbError_def)
  have "\<exists>seat pre. seat \<in> set (seats b)
            \<and> evs = pre @ [Threw (INSERT_SEAT seat), Ran ROLLBACK, Responded 500]
            \<and> out = Sent (handleDbError unique_seat_failed ''Failed to book seats'')
            \<and> st = \<lparr>committed = d, tx = None\<rparr>
            \<and> ((\<forall>x \<in> set (seats b). \<not> seat_taken d (session_id b) x)
                 \<longrightarrow> Ran (INSERT_SEAT seat) \<in> set pre)"
    if nf: "F = no_faults"
  proof -
    from nf have "F s = None" by (simp add: no_faults_def)
    with aborted b' obtain seat where seat: "s = INSERT_SEAT seat" "err = unique_seat_failed"
      and why: "seat_taken d (session_id b) seat \<or> Ran s \<in> set pre"
      by auto
    from aborted seat b' have mem: "seat \<in> set (seats b)" by simp
    with why have "(\<forall>x \<in> set (seats b). \<not> seat_taken d (session_id b) x)
                 \<longrightarrow> Ran (INSERT_SEAT seat) \<in> set pre"
      using seat by auto
    with aborted seat mem show ?thesis by auto
  qed
  with general show ?thesis by blast
next
  case (rollback_failed b' err s pre t)
  then show ?thesis by (auto simp: no_faults_def)
next
  case (read_failed b' err s pre rows q)
  with valid rep show ?thesis by simp
next
  case (success b' rows q)
  with valid rep show ?thesis by simp
qed

text \<open>
  Claim C10 at a request for seat A1 twice, on an empty database.
\<close>

theorem repeated_seat_fails_witness:
  "BookingSchema example_email (request_with 1 ''12345678'' [''A1'', ''A1'']) =
     Inr \<lparr>session_id = 1, name = ''A'', email = ''a@x.com'', phone_number = ''12345678'',
          seats = [''A1'', ''A1'']\<rparr>
   \<and> \<not> distinct [''A1'', ''A1'']
   \<and> post_book example_email no_faults initializeDb (request_with 1 ''12345678'' [''A1'', ''A1'']) =
     (Sent (handleDbError unique_seat_failed ''Failed to book seats''),
      \<lparr>committed = initializeDb, tx = None\<rparr>,
      [Ran OPEN_DB, Ran BEGIN_TRANSACTION, Ran INSERT_BOOKING, Ran (INSERT_SEAT ''A1''),
       Threw (INSERT_SEAT ''A1''), Ran ROLLBACK, Responded 500])
   \<and> committed \<lparr>committed = initializeDb, tx = None\<rparr> = initializeDb
   \<and> status (handleDbError unique_seat_failed ''Failed to book seats'') = 500"
proof -
  have d: "\<not> distinct (seats \<lparr>session_id = 1, name = ''A'', email = ''a@x.com'',
      phone_number = ''12345678'', seats = [''A1'', ''A1'']\<rparr>)"
    by simp
  from repeated_seat_fails [OF repeated_seat_request d repeated_seat_run]
    repeated_seat_request repeated_seat_run
  show ?thesis by simp
qed

text \<open>
  Claim C9. When the inserts and the commit of a request succeed and one of the two reads
  for the summary fails, the handler answers 500 "Failed to book seats" without a rollback
  (\<^verbatim>\<open>transactionActive\<close> is false by then), and the booking and its seat claims are in
  the committed database: an error response does not mean that nothing was stored.
\<close>

theorem committed_booking_answered_with_error:
  assumes valid: "BookingSchema is_email reqBody = Inr b"
    and dist: "distinct (seats b)"
    and free: "\<forall>x \<in> set (seats b). \<not> seat_taken d (session_id b) x"
    and faults: "F = no_faults(SELECT_BOOKING := Some err) \<or> F = no_faults(SELECT_BOOKED_SEATS := Some err)"
    and run: "post_book is_email F d reqBody = (out, st, evs)"
  shows "out = Sent \<lparr>status = 500, body = Failure ''Failed to book seats'' (Text (err_message err))\<rparr>
    \<and> Ran COMMIT \<in> set evs \<and> Ran ROLLBACK \<notin> set evs \<and> tx st = None
    \<and> bookings (committed st) = bookings d @ [booking_row_of (new_booking_id d) b]
    \<and> select_seats (committed st) (session_id b) = select_seats d (session_id b) @ seats b"
proof -
  from faults have nofault: "F OPEN_DB = None" "F BEGIN_TRANSACTION = None" "F INSERT_BOOKING = None"
      "F COMMIT = None"
    and seatfault: "\<forall>x. F (INSERT_SEAT x) = None"
    by (auto simp: no_faults_def)
  from free seatfault
  have free': "\<forall>x \<in> set (seats b). \<not> seat_taken d (session_id b) x \<and> F (INSERT_SEAT x) = None"
    by simp
  from post_book_commits [where F = F, OF valid dist free' nofault run] obtain rows q where
    st: "st = \<lparr>committed = (with_booking d b)\<lparr>booking_seats := booking_seats d @ rows,
                                             booking_seats_seq := q\<rparr>, tx = None\<rparr>"
    and rows: "map bs_seat rows = seats b"
    and own: "\<forall>x \<in> set rows. bs_booking_id x = new_booking_id d \<and> bs_session_id x = session_id b"
    and ev: "Ran COMMIT \<in> set evs" "Ran ROLLBACK \<notin> set evs"
    and out: "case F SELECT_BOOKING of
         Some err \<Rightarrow> out = Sent (handleDbError err ''Failed to book seats'')
       | None \<Rightarrow>
        (case F SELECT_BOOKED_SEATS of
           Some err \<Rightarrow> out = Sent (handleDbError err ''Failed to book seats'')
         | None \<Rightarrow>
             out = Sent \<lparr>status = 200,
                   body = Success \<lparr>booking_id = new_booking_id d, sum_name = name b,
                     sum_email = email b, sum_phone_number = phone_number b,
                     sum_session_id = session_id b,
                     sum_seats = select_booked_seats
                        ((with_booking d b)\<lparr>booking_seats := booking_seats d @ rows,
                                             booking_seats_seq := q\<rparr>) (new_booking_id d)\<rparr>\<rparr>)"
    by blast
  from out faults have "out = Sent (handleDbError err ''Failed to book seats'')"
    by (auto simp: no_faults_def)
  moreover have "bookings (committed st) = bookings d @ [booking_row_of (new_booking_id d) b]"
    by (simp add: st with_booking_def)
  moreover have "select_seats (committed st) (session_id b) = select_seats d (session_id b) @ seats b"
    using seats_of_session_after [OF own] rows by (simp add: st)
  ultimately show ?thesis using ev st by (simp add: handleDbError_def)
qed

text \<open>
  Claim C9 at a request for A1 and A2 whose first summary read finds the database locked:
  such an execution exists.
\<close>

theorem committed_booking_answered_with_error_witness:
  "BookingSchema example_email (request_with 1 ''12345678'' [''A1'', ''A2'']) =
     Inr \<lparr>session_id = 1, name = ''A'', email = ''a@x.com'', phone_number = ''12345678'',
          seats = [''A1'', ''A2'']\<rparr>
   \<and> distinct [''A1'', ''A2'']
   \<and> \<not> seat_taken initializeDb 1 ''A1'' \<and> \<not> seat_taken initializeDb 1 ''A2''
   \<and> fst (post_book example_email (no_faults(SELECT_BOOKING := Some busy)) initializeDb
        (request_with 1 ''12345678'' [''A1'', ''A2''])) =
       Sent \<lparr>status = 500,
            body = Failure ''Failed to book seats'' (Text ''SQLITE_BUSY: database is locked'')\<rparr>
   \<and> bookings (committed (fst (snd (post_book example_email (no_faults(SELECT_BOOKING := Some busy))
        initializeDb (request_with 1 ''12345678'' [''A1'', ''A2''])))))
       = [\<lparr>bk_id = 1, bk_session_id = 1, bk_name = ''A'', bk_email = ''a@x.com'',
           bk_phone_number = ''12345678''\<rparr>]
   \<and> select_seats (committed (fst (snd (post_book example_email (no_faults(SELECT_BOOKING := Some busy))
        initializeDb (request_with 1 ''12345678'' [''A1'', ''A2'']))))) 1 = [''A1'', ''A2'']"
proof -
  have d: "distinct (seats \<lparr>session_id = 1, name = ''A'', email = ''a@x.com'',
      phone_number = ''12345678'', seats = [''A1'', ''A2'']\<rparr>)"
    by simp
  have f: "\<forall>x \<in> set (seats \<lparr>session_id = 1, name = ''A'', email = ''a@x.com'',
      phone_number = ''12345678'', seats = [''A1'', ''A2'']\<rparr>).
      \<not> seat_taken initializeDb (session_id \<lparr>session_id = 1, name = ''A'', email = ''a@x.com'',
      phone_number = ''12345678'', seats = [''A1'', ''A2'']\<rparr>) x"
    by (simp add: seat_taken_def initializeDb_def)
  have F: "no_faults(SELECT_BOOKING := Some busy) = no_faults(SELECT_BOOKING := Some busy)
      \<or> no_faults(SELECT_BOOKING := Some busy) = no_faults(SELECT_BOOKED_SEATS := Some busy)"
    by simp
  from committed_booking_answered_with_error [OF example_request d f F read_fault_run]
    example_request d f read_fault_run
  show ?thesis
    by (simp add: busy_def select_seats_def initializeDb_def seat_taken_def)
qed




section \<open>Successful bookings\<close>






text \<open>
  Claim C3. The claim does not hold of the code: with no session in the database, a
  request for session 1 is answered 200 and its booking and seat claims are committed.
  The schema declares \<^verbatim>\<open>FOREIGN KEY (session_id) REFERENCES sessions(id)\<close>, and no
  connection enforces it.
\<close>

theorem unknown_session_is_booked:
  "select_session initializeDb 1 = None
   \<and> post_book example_email no_faults initializeDb (request_with 1 ''12345678'' [''A1'', ''A2'']) =
     (Sent \<lparr>status = 200,
            body = Success \<lparr>booking_id = 1, sum_name = ''A'', sum_email = ''a@x.com'',
                     sum_phone_number = ''12345678'', sum_session_id = 1,
                     sum_seats = [''A1'', ''A2'']\<rparr>\<rparr>,
      \<lparr>committed =
         \<lparr>movies = [], sessions = [],
          bookings = [\<lparr>bk_id = 1, bk_session_id = 1, bk_name = ''A'', bk_email = ''a@x.com'',
                       bk_phone_number = ''12345678''\<rparr>],
          booking_seats = [\<lparr>bs_id = 1, bs_booking_id = 1, bs_session_id = 1, bs_seat = ''A1''\<rparr>,
                           \<lparr>bs_id = 2, bs_booking_id = 1, bs_session_id = 1, bs_seat = ''A2''\<rparr>],
          bookings_seq = 1, booking_seats_seq = 2\<rparr>,
       tx = None\<rparr>,
      [Ran OPEN_DB, Ran BEGIN_TRANSACTION, Ran INSERT_BOOKING, Ran (INSERT_SEAT ''A1''),
       Ran (INSERT_SEAT ''A2''), Ran COMMIT, Ran SELECT_BOOKING, Ran SELECT_BOOKED_SEATS,
       Responded 200])"
  by code_simp

end
